theory Spec2Isabelle
  imports Main "HOL-Library.Sublist" "HOL-Library.Char_ord" "HOL-Library.List_Lexorder"
begin

section \<open>JavaScript strings and plain objects\<close>

text \<open>
  A JavaScript string is modelled as a \<^typ>\<open>string\<close>: one \<^typ>\<open>char\<close> per code unit,
  for code units below 256 (the tables of the pipeline are plain ASCII).
\<close>

text \<open>\<^verbatim>\<open>s.includes(pat)\<close>: \<open>pat\<close> occurs in \<open>s\<close> as a contiguous run.\<close>

fun str_includes :: "string \<Rightarrow> string \<Rightarrow> bool" where
  "str_includes [] pat = (pat = [])"
| "str_includes (c # cs) pat = (prefix pat (c # cs) \<or> str_includes cs pat)"

definition startsWith :: "string \<Rightarrow> string \<Rightarrow> bool" where
  "startsWith s pat = prefix pat s"

definition endsWith :: "string \<Rightarrow> string \<Rightarrow> bool" where
  "endsWith s pat = suffix pat s"

text \<open>
  \<^verbatim>\<open>s.replace(/SUF$/, '')\<close> for a literal \<open>SUF\<close>: without the \<^verbatim>\<open>m\<close> flag the anchor
  matches at the end of the input only, so one trailing \<open>SUF\<close> is cut off, if there is one.
\<close>

definition replace_at_end :: "string \<Rightarrow> string \<Rightarrow> string" where
  "replace_at_end suf s = (if endsWith s suf then take (length s - length suf) s else s)"

text \<open>
  \<^verbatim>\<open>s.replace(pat, '')\<close> with a string pattern: only the first occurrence of \<open>pat\<close>
  (the leftmost one) is removed.
\<close>

fun remove_first :: "string \<Rightarrow> string \<Rightarrow> string" where
  "remove_first pat [] = []"
| "remove_first pat (c # cs) =
     (if prefix pat (c # cs) then drop (length pat) (c # cs) else c # remove_first pat cs)"

text \<open>
  \<^verbatim>\<open>s.toLowerCase()\<close> on code units below 256: the ASCII capitals and the Latin-1
  capitals (U+00C0 to U+00DE without the multiplication sign U+00D7) move up by 32.
\<close>

definition lower_char :: "char \<Rightarrow> char" where
  "lower_char c =
     (let n = (of_char c :: nat)
      in if (65 \<le> n \<and> n \<le> 90) \<or> (192 \<le> n \<and> n \<le> 222 \<and> n \<noteq> 215)
         then char_of (n + 32) else c)"

definition toLowerCase :: "string \<Rightarrow> string" where
  "toLowerCase s = map lower_char s"

text \<open>
  What a property read \<^verbatim>\<open>obj[key]\<close> on a plain object gives: the value the object holds
  under the key, or, when the object has no such key of its own, what the key names on
  \<^verbatim>\<open>Object.prototype\<close> (a built-in function; for \<^verbatim>\<open>__proto__\<close> the prototype object
  itself). \<open>None\<close> is \<^verbatim>\<open>undefined\<close>.
\<close>

datatype 'a js = Val 'a | Inherited string

definition OBJECT_PROTOTYPE_KEYS :: "string list" where
  "OBJECT_PROTOTYPE_KEYS =
     [''constructor'', ''__defineGetter__'', ''__defineSetter__'', ''hasOwnProperty'',
      ''__lookupGetter__'', ''__lookupSetter__'', ''isPrototypeOf'',
      ''propertyIsEnumerable'', ''toString'', ''valueOf'', ''__proto__'',
      ''toLocaleString'']"

text \<open>
  An object is the list of its own properties, in insertion order, each key once.
\<close>

definition get_prop :: "(string \<times> 'a) list \<Rightarrow> string \<Rightarrow> 'a js option" where
  "get_prop obj k =
     (case map_of obj k of
        Some v \<Rightarrow> Some (Val v)
      | None \<Rightarrow> if k \<in> set OBJECT_PROTOTYPE_KEYS then Some (Inherited k) else None)"

text \<open>
  Truthiness of a string-valued property: \<^verbatim>\<open>undefined\<close> and the empty string are falsy,
  functions and objects are truthy.
\<close>

fun truthy :: "string js option \<Rightarrow> bool" where
  "truthy None = False"
| "truthy (Some (Val s)) = (s \<noteq> [])"
| "truthy (Some (Inherited k)) = True"

text \<open>\<^verbatim>\<open>obj[key] || fallback\<close>\<close>

definition get_or :: "(string \<times> string) list \<Rightarrow> string \<Rightarrow> string js \<Rightarrow> string js" where
  "get_or obj k fallback =
     (case get_prop obj k of
        Some v \<Rightarrow> if truthy (Some v) then v else fallback
      | None \<Rightarrow> fallback)"

text \<open>
  \<^verbatim>\<open>String(v)\<close>, which is also the property key a value stands for: a built-in function
  prints as its native-code source, the prototype object as \<^verbatim>\<open>[object Object]\<close>.
\<close>

fun String_of :: "string js \<Rightarrow> string" where
  "String_of (Val s) = s"
| "String_of (Inherited k) =
     (if k = ''__proto__'' then ''[object Object]''
      else ''function '' @ (if k = ''constructor'' then ''Object'' else k)
           @ ''() { [native code] }'')"

section \<open>Categories and keyword tables (process-icons.js)\<close>

definition CATEGORIES :: "(string \<times> string) list" where
  "CATEGORIES = [
     (''arrows'', ''Arrows & Chevrons''),
     (''navigation'', ''Navigation & Layout''),
     (''datetime'', ''Date & Time''),
     (''files'', ''Files & Folders''),
     (''communication'', ''Communication''),
     (''media'', ''Media & Audio''),
     (''people'', ''People & Users''),
     (''commerce'', ''Commerce & Finance''),
     (''security'', ''Security & Privacy''),
     (''controls'', ''Settings & Controls''),
     (''infrastructure'', ''Infrastructure & Data''),
     (''actions'', ''Actions & Favorites''),
     (''notifications'', ''Notifications & Alerts''),
     (''location'', ''Location & Maps''),
     (''visual'', ''Images & Video''),
     (''development'', ''Development & Code''),
     (''weather'', ''Weather & Nature''),
     (''shapes'', ''Shapes & Symbols''),
     (''text'', ''Text & Typography''),
     (''misc'', ''Miscellaneous'')]"

definition CATEGORY_KEYWORDS :: "(string \<times> string list) list" where
  "CATEGORY_KEYWORDS = [
     (''arrows'',
      [''arrow'', ''chevron'', ''caret'', ''move-'', ''corner-'', ''maximize'',
       ''minimize'', ''expand'', ''shrink'', ''fold'', ''unfold'', ''between'',
       ''iterate'', ''repeat'', ''undo'', ''redo'', ''rotate'', ''flip'', ''refresh'',
       ''replace'', ''swap'', ''merge'', ''split'', ''return'', ''forward'', ''backward'']),
     (''navigation'',
      [''home'', ''house'', ''menu'', ''sidebar'', ''layout'', ''grid'', ''list'',
       ''panel'', ''columns'', ''rows'', ''table'', ''kanban'', ''dock'', ''app-window'',
       ''panel'', ''navigation'', ''breadcrumb'', ''pagination'', ''tab'', ''gallery'',
       ''scroll'', ''separator'', ''grip'', ''between-'', ''ellipsis'',
       ''more-horizontal'', ''more-vertical'', ''anchor'', ''loader'', ''layers'',
       ''form-input'']),
     (''datetime'',
      [''calendar'', ''clock'', ''timer'', ''watch'', ''hourglass'', ''alarm'',
       ''schedule'', ''stopwatch'', ''history'', ''time'']),
     (''files'',
      [''file'', ''folder'', ''document'', ''copy'', ''clipboard'', ''paste'',
       ''notebook'', ''book'', ''archive'', ''package'', ''box'', ''save'', ''download'',
       ''upload'', ''import'', ''export'', ''attachment'']),
     (''communication'',
      [''mail'', ''message'', ''phone'', ''chat'', ''send'', ''inbox'', ''contact'',
       ''at-sign'', ''reply'', ''voicemail'', ''satellite'', ''radio'', ''rss'', ''share'',
       ''megaphone'', ''speech'', ''conversation'', ''comment'']),
     (''media'',
      [''play'', ''pause'', ''stop'', ''volume'', ''music'', ''mic'', ''headphone'',
       ''speaker'', ''audio'', ''podcast'', ''disc'', ''vinyl'', ''guitar'', ''drum'',
       ''piano'', ''amp'', ''equalizer'', ''fast-forward'', ''rewind'', ''skip'',
       ''shuffle'', ''repeat'', ''cassette'', ''gamepad'', ''joystick'', ''chess'']),
     (''people'',
      [''user'', ''users'', ''person'', ''baby'', ''accessibility'', ''hand'', ''thumbs'',
       ''brain'', ''head'', ''footprints'', ''figure'', ''body'', ''bone'', ''ear'',
       ''eye-'', ''glasses'', ''smile'', ''frown'', ''meh'', ''angry'', ''annoyed'',
       ''laugh'', ''drama'']),
     (''commerce'',
      [''cart'', ''bag'', ''credit-card'', ''dollar'', ''wallet'', ''receipt'',
       ''banknote'', ''coin'', ''currency'', ''bitcoin'', ''store'', ''shop'', ''tag'',
       ''barcode'', ''price'', ''percent'', ''badge-'', ''ticket'', ''gift'', ''piggy'',
       ''landmark'', ''building'', ''calculator'', ''tally'', ''scale'', ''school'']),
     (''security'',
      [''lock'', ''key'', ''shield'', ''scan'', ''fingerprint'', ''guard'', ''keyhole'',
       ''unlock'', ''vault'']),
     (''controls'',
      [''settings'', ''sliders'', ''toggle'', ''tool'', ''wrench'', ''hammer'',
       ''screwdriver'', ''nut'', ''bolt'', ''cog'', ''gear'', ''filter'', ''sort'',
       ''adjust'', ''configure'', ''switch'', ''power'', ''plug'', ''socket'', ''cable'',
       ''usb'', ''bluetooth'', ''wifi'', ''nfc'', ''signal'', ''antenna'', ''gauge'',
       ''touchpad'', ''fan'']),
     (''infrastructure'',
      [''cloud'', ''database'', ''server'', ''hard-drive'', ''cpu'', ''memory'',
       ''network'', ''container'', ''blocks'', ''workflow'', ''circuit'', ''binary'',
       ''ethernet'', ''router'', ''monitor'', ''screen'', ''laptop'', ''tablet'',
       ''smartphone'', ''desktop'', ''printer'', ''keyboard'', ''mouse'', ''computer'',
       ''display'', ''chart'', ''bar-chart'', ''line-chart'', ''area-chart'',
       ''pie-chart'', ''gantt-chart'', ''scatter-chart'', ''candlestick-chart'',
       ''trending'', ''tv'']),
     (''actions'',
      [''heart'', ''star'', ''bookmark'', ''thumb'', ''flag'', ''pin'', ''like'',
       ''check'', ''plus'', ''minus'', ''x'', ''close'', ''delete'', ''trash'', ''remove'',
       ''add'', ''create'', ''edit'', ''pencil'', ''pen'', ''eraser'', ''scissors'',
       ''crop'', ''cut'', ''zap'', ''sparkle'', ''wand'', ''magic'', ''search'', ''zoom'',
       ''eye'', ''lightbulb'', ''lasso'', ''link'', ''rocket'', ''verified'', ''medal'',
       ''ribbon'', ''inspect'', ''grab'', ''crosshair'', ''cross'']),
     (''notifications'',
      [''alert'', ''bell'', ''info'', ''warning'', ''siren'', ''megaphone'',
       ''help-circle'', ''badge'', ''notification'', ''announce'', ''circle-alert'',
       ''triangle-alert'', ''octagon-alert'']),
     (''location'',
      [''map'', ''pin'', ''globe'', ''compass'', ''navigation'', ''route'', ''locate'',
       ''gps'', ''waypoint'', ''milestone'', ''sign-post'', ''signpost'', ''mountain'',
       ''tent'', ''tree'', ''flower'', ''leaf'', ''train'', ''bus'', ''car'', ''plane'',
       ''bike'', ''motorbike'', ''scooter'', ''tractor'', ''tram'', ''ship'', ''sail'',
       ''rail'', ''fuel'', ''parking'', ''ferry'', ''truck'']),
     (''visual'',
      [''image'', ''camera'', ''video'', ''film'', ''photo'', ''picture'', ''aperture'',
       ''focus'', ''frame'', ''gallery'', ''canvas'', ''projector'', ''presentation'',
       ''screenshot'', ''paintbrush'', ''paint'', ''palette'', ''spray-can'', ''sticker'',
       ''drone'', ''feather'']),
     (''development'',
      [''code'', ''terminal'', ''git'', ''bug'', ''bracket'', ''braces'', ''regex'',
       ''variable'', ''function'', ''webhook'', ''api'', ''component'', ''puzzle'',
       ''block'', ''atom'', ''test-tube'']),
     (''weather'',
      [''sun'', ''moon'', ''cloud-rain'', ''cloud-snow'', ''cloud-lightning'',
       ''cloud-drizzle'', ''cloud-hail'', ''cloud-fog'', ''wind'', ''rainbow'',
       ''snowflake'', ''thermometer'', ''umbrella'', ''tornado'', ''sunrise'', ''sunset'',
       ''eclipse'', ''droplet'', ''wave'', ''flame'', ''fire'', ''haze'', ''shrub'']),
     (''shapes'',
      [''circle'', ''square'', ''triangle'', ''hexagon'', ''octagon'', ''pentagon'',
       ''diamond'', ''rectangle'', ''oval'', ''cylinder'', ''cone'', ''cube'', ''pyramid'',
       ''sphere'', ''torus'', ''shape'', ''infinity'', ''sigma'', ''slash'', ''scaling'',
       ''origami'']),
     (''text'',
      [''type'', ''text'', ''bold'', ''italic'', ''font'', ''underline'',
       ''strikethrough'', ''heading'', ''paragraph'', ''quote'', ''list'', ''indent'',
       ''align-'', ''subscript'', ''superscript'', ''case'', ''spell'', ''whole-word'',
       ''pilcrow'', ''baseline'', ''wrap'', ''a-arrow'', ''a-large'',
       ''remove-formatting'', ''languages'', ''subtitles'', ''outdent''])]"

definition NAME_OVERRIDES :: "(string \<times> string) list" where
  "NAME_OVERRIDES = [
     (''cloud-download'', ''infrastructure''), (''cloud-upload'', ''infrastructure''),
     (''cloud-off'', ''infrastructure''), (''cloud-cog'', ''infrastructure''),
     (''eye'', ''actions''), (''eye-off'', ''actions''), (''scan-face'', ''security''),
     (''scan-line'', ''security''), (''scan-barcode'', ''commerce''),
     (''scan-text'', ''text''), (''scan-search'', ''actions''),
     (''scan-eye'', ''security''), (''navigation'', ''location''),
     (''navigation-2'', ''location''), (''navigation-off'', ''location''),
     (''share'', ''communication''), (''share-2'', ''communication''),
     (''pin'', ''location''), (''pin-off'', ''location''),
     (''monitor'', ''infrastructure''), (''monitor-check'', ''infrastructure''),
     (''monitor-dot'', ''infrastructure''), (''monitor-down'', ''infrastructure''),
     (''monitor-off'', ''infrastructure''), (''monitor-pause'', ''infrastructure''),
     (''monitor-play'', ''infrastructure''), (''monitor-smartphone'', ''infrastructure''),
     (''monitor-speaker'', ''infrastructure''), (''monitor-stop'', ''infrastructure''),
     (''monitor-up'', ''infrastructure''), (''monitor-x'', ''infrastructure''),
     (''cloud'', ''infrastructure''), (''box'', ''files''), (''boxes'', ''files''),
     (''flag'', ''actions''), (''flag-off'', ''actions''),
     (''flag-triangle-left'', ''actions''), (''flag-triangle-right'', ''actions'')]"

definition TABLER_CATEGORY_MAP :: "(string \<times> string) list" where
  "TABLER_CATEGORY_MAP = [
     (''Animals'', ''misc''), (''Arrows'', ''arrows''), (''Badges'', ''actions''),
     (''Brand'', ''misc''), (''Buildings'', ''commerce''),
     (''Charts'', ''infrastructure''), (''Communication'', ''communication''),
     (''Computers'', ''infrastructure''), (''Currencies'', ''commerce''),
     (''Database'', ''infrastructure''), (''Design'', ''visual''),
     (''Development'', ''development''), (''Devices'', ''infrastructure''),
     (''Document'', ''files''), (''E-commerce'', ''commerce''),
     (''Electrical'', ''controls''), (''Extensions'', ''development''),
     (''Food'', ''misc''), (''Games'', ''misc''), (''Gender'', ''people''),
     (''Gestures'', ''people''), (''Health'', ''people''), (''Laundry'', ''misc''),
     (''Letters'', ''text''), (''Logic'', ''development''), (''Map'', ''location''),
     (''Math'', ''shapes''), (''Media'', ''media''), (''Mood'', ''people''),
     (''Nature'', ''weather''), (''Numbers'', ''text''), (''Photography'', ''visual''),
     (''Shapes'', ''shapes''), (''Sport'', ''misc''), (''Symbols'', ''shapes''),
     (''System'', ''controls''), (''Text'', ''text''), (''Vehicles'', ''location''),
     (''Version control'', ''development''), (''Weather'', ''weather''),
     (''Zodiac'', ''misc'')]"

definition PHOSPHOR_CATEGORY_MAP :: "(string \<times> string) list" where
  "PHOSPHOR_CATEGORY_MAP = [
     (''arrows'', ''arrows''), (''brands'', ''misc''), (''commerce'', ''commerce''),
     (''communications'', ''communication''), (''design'', ''visual''),
     (''editor'', ''text''), (''finances'', ''commerce''), (''games'', ''misc''),
     (''health & wellness'', ''people''), (''maps & travel'', ''location''),
     (''media'', ''media''), (''nature'', ''weather''), (''objects'', ''misc''),
     (''office'', ''files''), (''people'', ''people''), (''system'', ''controls''),
     (''technology & development'', ''development''), (''weather'', ''weather'')]"

definition REMIX_CATEGORY_MAP :: "(string \<times> string) list" where
  "REMIX_CATEGORY_MAP = [
     (''Arrows'', ''arrows''), (''Buildings'', ''commerce''), (''Business'', ''commerce''),
     (''Communication'', ''communication''), (''Design'', ''visual''),
     (''Development'', ''development''), (''Device'', ''infrastructure''),
     (''Document'', ''files''), (''Editor'', ''text''), (''Finance'', ''commerce''),
     (''Food'', ''misc''), (''Game & Sports'', ''misc''),
     (''Health & Medical'', ''people''), (''Logos'', ''misc''), (''Map'', ''location''),
     (''Media'', ''media''), (''Others'', ''misc''), (''System'', ''controls''),
     (''User & Faces'', ''people''), (''Weather'', ''weather'')]"

definition MDI_CATEGORY_MAP :: "(string \<times> string) list" where
  "MDI_CATEGORY_MAP = [
     (''Account / User'', ''people''), (''Agriculture'', ''misc''),
     (''Alert / Error'', ''notifications''), (''Alpha / Numeric'', ''text''),
     (''Animal'', ''misc''), (''Arrange'', ''navigation''), (''Arrow'', ''arrows''),
     (''Audio'', ''media''), (''Automotive'', ''location''), (''Banking'', ''commerce''),
     (''Battery'', ''infrastructure''), (''Brand / Logo'', ''misc''),
     (''Cellphone / Phone'', ''infrastructure''), (''Clothing'', ''misc''),
     (''Cloud'', ''infrastructure''), (''Color'', ''visual''),
     (''Currency'', ''commerce''), (''Database'', ''infrastructure''),
     (''Date / Time'', ''datetime''), (''Developer / Languages'', ''development''),
     (''Device / Tech'', ''infrastructure''), (''Drawing / Art'', ''visual''),
     (''Edit / Modify'', ''actions''), (''Emoji'', ''people''),
     (''Files / Folders'', ''files''), (''Food / Drink'', ''misc''),
     (''Form'', ''controls''), (''Gaming / RPG'', ''misc''),
     (''Geographic Information System'', ''location''),
     (''Hardware / Tools'', ''controls''), (''Health / Beauty'', ''people''),
     (''Holiday'', ''misc''), (''Home Automation'', ''controls''),
     (''Lock'', ''security''), (''Math'', ''shapes''),
     (''Medical / Hospital'', ''people''), (''Music'', ''media''),
     (''Nature'', ''weather''), (''Navigation'', ''navigation''),
     (''Notification'', ''notifications''), (''People / Family'', ''people''),
     (''Photography'', ''visual''), (''Places'', ''location''),
     (''Printer'', ''infrastructure''), (''Religion'', ''misc''), (''Science'', ''misc''),
     (''Settings'', ''controls''), (''Shape'', ''shapes''), (''Shopping'', ''commerce''),
     (''Social Media'', ''communication''), (''Sport'', ''misc''),
     (''Text / Content / Format'', ''text''), (''Tooltip'', ''notifications''),
     (''Transportation + Flying'', ''location''),
     (''Transportation + Other'', ''location''), (''Transportation + Road'', ''location''),
     (''Transportation + Water'', ''location''), (''Vector'', ''visual''),
     (''Video / Movie'', ''visual''), (''View'', ''actions''), (''Weather'', ''weather'')]"

definition ICONPARK_CATEGORY_MAP :: "(string \<times> string) list" where
  "ICONPARK_CATEGORY_MAP = [
     (''Abstract'', ''shapes''), (''Animals'', ''misc''), (''Arrows'', ''arrows''),
     (''Baby'', ''people''), (''Base'', ''controls''), (''Brand'', ''misc''),
     (''Build'', ''commerce''), (''Character'', ''text''),
     (''Charts'', ''infrastructure''), (''Clothes'', ''misc''),
     (''Communicate'', ''communication''), (''Components'', ''development''),
     (''Connect'', ''infrastructure''), (''Constellation'', ''misc''),
     (''Datas'', ''infrastructure''), (''Edit'', ''actions''), (''Emoji'', ''people''),
     (''Energy'', ''controls''), (''Foods'', ''misc''), (''Game'', ''misc''),
     (''Graphics'', ''visual''), (''Hands'', ''people''),
     (''Hardware'', ''infrastructure''), (''Health'', ''people''),
     (''Industry'', ''commerce''), (''Life'', ''misc''), (''Makeups'', ''misc''),
     (''Measurement'', ''controls''), (''Money'', ''commerce''), (''Music'', ''media''),
     (''Office'', ''files''), (''Operate'', ''actions''), (''Others'', ''misc''),
     (''Peoples'', ''people''), (''Safe'', ''security''), (''Sports'', ''misc''),
     (''Time'', ''datetime''), (''Travel'', ''location''), (''Weather'', ''weather'')]"

definition category_ids :: "string list" where
  "category_ids = map fst CATEGORIES"

section \<open>The categorizer\<close>

text \<open>\<^verbatim>\<open>keyword.replace(/-$/, '')\<close>\<close>

definition cleanKeyword :: "string \<Rightarrow> string" where
  "cleanKeyword keyword = replace_at_end ''-'' keyword"

text \<open>
  The two nested loops over \<^verbatim>\<open>Object.entries(CATEGORY_KEYWORDS)\<close> and the keywords of a
  category: the first category, in declaration order, with a keyword that passes the test.
\<close>

fun first_category :: "(string \<Rightarrow> bool) \<Rightarrow> (string \<times> string list) list \<Rightarrow> string option" where
  "first_category test [] = None"
| "first_category test ((category, keywords) # rest) =
     (if list_ex test keywords then Some category else first_category test rest)"

definition name_test :: "string \<Rightarrow> string \<Rightarrow> bool" where
  "name_test name keyword =
     (str_includes name keyword \<or> startsWith name (cleanKeyword keyword))"

definition tag_test :: "string list \<Rightarrow> string \<Rightarrow> bool" where
  "tag_test tags keyword =
     list_ex (\<lambda>tag. str_includes (toLowerCase tag) (cleanKeyword keyword)) tags"

text \<open>
  Steps 2 to 4: the keyword scan of the name, then of the tags, then \<^verbatim>\<open>'misc'\<close>. The
  tag list may be \<^verbatim>\<open>null\<close> or \<^verbatim>\<open>undefined\<close> (\<open>None\<close>): \<^verbatim>\<open>tags || []\<close>.
\<close>

definition keyword_scan :: "string \<Rightarrow> string list option \<Rightarrow> string" where
  "keyword_scan name tags =
     (case first_category (name_test name) CATEGORY_KEYWORDS of
        Some category \<Rightarrow> category
      | None \<Rightarrow>
         (case first_category (tag_test (case tags of None \<Rightarrow> [] | Some ts \<Rightarrow> ts))
                 CATEGORY_KEYWORDS of
            Some category \<Rightarrow> category
          | None \<Rightarrow> ''misc''))"

text \<open>Step 1 first: \<^verbatim>\<open>if (NAME_OVERRIDES[name]) return NAME_OVERRIDES[name];\<close>\<close>

definition categorizeByKeywords :: "string \<Rightarrow> string list option \<Rightarrow> string js" where
  "categorizeByKeywords name tags =
     (case get_prop NAME_OVERRIDES name of
        Some v \<Rightarrow> if truthy (Some v) then v else Val (keyword_scan name tags)
      | None \<Rightarrow> Val (keyword_scan name tags))"

section \<open>The publisher (upload-icons.js)\<close>

subsection \<open>Command line\<close>

text \<open>\<^verbatim>\<open>args.indexOf(x)\<close>, for an \<open>x\<close> that occurs in \<open>args\<close>.\<close>

fun indexOf :: "string list \<Rightarrow> string \<Rightarrow> nat" where
  "indexOf [] x = 0"
| "indexOf (a # as) x = (if a = x then 0 else Suc (indexOf as x))"

definition uploadManifest :: "string list \<Rightarrow> bool" where
  "uploadManifest args = (length args = 0 \<or> ''--manifest'' \<in> set args)"

definition uploadSvgs :: "string list \<Rightarrow> bool" where
  "uploadSvgs args = (length args = 0 \<or> ''--svgs'' \<in> set args)"

text \<open>
  \<open>None\<close> is \<^verbatim>\<open>null\<close> (no \<^verbatim>\<open>--lib\<close>) or \<^verbatim>\<open>undefined\<close> (\<^verbatim>\<open>--lib\<close> is the last argument).
\<close>

definition libFilter :: "string list \<Rightarrow> string option" where
  "libFilter args =
     (if ''--lib'' \<in> set args
      then (let i = indexOf args ''--lib'' + 1
            in if i < length args then Some (args ! i) else None)
      else None)"

subsection \<open>The worker pool\<close>

text \<open>
  \<^verbatim>\<open>parallelMap(items, fn, concurrency)\<close> starts \<open>concurrency\<close> copies of the async
  function \<^verbatim>\<open>worker\<close>. JavaScript runs one of them at a time, and a worker gives up control
  only at its \<^verbatim>\<open>await\<close>; so the state changes in atomic steps, from one \<^verbatim>\<open>await\<close> of a
  worker to its next. A worker is not started yet, is waiting for the upload of the item
  with a given index, or has left its loop.

  \<open>fn\<close> is the boolean the promise \<^verbatim>\<open>fn(item)\<close> resolves to (\<^verbatim>\<open>runAsync\<close> resolves
  always, with \<^verbatim>\<open>!error\<close>); \<open>calls\<close> records the items \<^verbatim>\<open>fn\<close> was invoked on, in order.
\<close>

datatype worker = NotStarted | Awaiting nat | Returned

record 'a pool =
  index :: nat
  completed :: nat
  failed :: nat
  workers :: "worker list"
  calls :: "'a list"

text \<open>
  Worker \<open>k\<close> at the head of its loop: \<^verbatim>\<open>while (index < total)\<close> takes the next index,
  invokes \<^verbatim>\<open>fn(items[i])\<close> and waits; otherwise the worker returns.
\<close>

definition loop_head :: "'a list \<Rightarrow> nat \<Rightarrow> 'a pool \<Rightarrow> 'a pool" where
  "loop_head items k s =
     (if index s < length items
      then s\<lparr>index := index s + 1,
             workers := (workers s)[k := Awaiting (index s)],
             calls := calls s @ [items ! index s]\<rparr>
      else s\<lparr>workers := (workers s)[k := Returned]\<rparr>)"

text \<open>
  The upload worker \<open>k\<close> waits for has ended: the worker counts it
  (\<^verbatim>\<open>if (ok) completed++; else failed++;\<close>) and is back at the head of its loop.
\<close>

definition resume :: "'a list \<Rightarrow> ('a \<Rightarrow> bool) \<Rightarrow> nat \<Rightarrow> 'a pool \<Rightarrow> 'a pool" where
  "resume items fn k s =
     (case workers s ! k of
        Awaiting i \<Rightarrow>
          loop_head items k
            (if fn (items ! i) then s\<lparr>completed := completed s + 1\<rparr>
             else s\<lparr>failed := failed s + 1\<rparr>)
      | _ \<Rightarrow> s)"

text \<open>
  \<^verbatim>\<open>Array.from({ length: concurrency }, () => worker())\<close>: the workers are started one
  after the other, each running up to its first \<^verbatim>\<open>await\<close>.
\<close>

definition init_pool :: "nat \<Rightarrow> 'a pool" where
  "init_pool concurrency =
     \<lparr>index = 0, completed = 0, failed = 0,
      workers = replicate concurrency NotStarted, calls = []\<rparr>"

definition start :: "'a list \<Rightarrow> nat \<Rightarrow> 'a pool" where
  "start items concurrency =
     fold (loop_head items) [0..<concurrency] (init_pool concurrency)"

fun is_awaiting :: "worker \<Rightarrow> bool" where
  "is_awaiting (Awaiting i) = True"
| "is_awaiting w = False"

definition awaiting :: "'a pool \<Rightarrow> nat list" where
  "awaiting s = filter (\<lambda>k. is_awaiting (workers s ! k)) [0..<length (workers s)]"

text \<open>
  One turn of the event loop: one of the pending uploads ends, and its worker runs up to
  its next \<^verbatim>\<open>await\<close>. Which upload ends first is not in the program's hands: \<open>pick\<close>
  chooses among the waiting workers. With no worker waiting nothing happens.
\<close>

definition event :: "'a list \<Rightarrow> ('a \<Rightarrow> bool) \<Rightarrow> nat \<Rightarrow> 'a pool \<Rightarrow> 'a pool" where
  "event items fn pick s =
     (case awaiting s of
        [] \<Rightarrow> s
      | k # ks \<Rightarrow> resume items fn ((k # ks) ! (pick mod length (k # ks))) s)"

definition run_pool :: "'a list \<Rightarrow> ('a \<Rightarrow> bool) \<Rightarrow> nat \<Rightarrow> nat list \<Rightarrow> 'a pool" where
  "run_pool items fn concurrency picks = fold (event items fn) picks (start items concurrency)"

text \<open>
  \<^verbatim>\<open>await Promise.all(...)\<close> goes on once every worker has returned; then the tally
  \<^verbatim>\<open>{ completed, failed }\<close> is the result. \<open>None\<close>: after the turns \<open>picks\<close> the call has
  not returned yet.
\<close>

definition parallelMap ::
  "'a list \<Rightarrow> ('a \<Rightarrow> bool) \<Rightarrow> nat \<Rightarrow> nat list \<Rightarrow> (nat \<times> nat) option" where
  "parallelMap items fn concurrency picks =
     (let s = run_pool items fn concurrency picks
      in if list_all (\<lambda>w. w = Returned) (workers s) then Some (completed s, failed s)
         else None)"

subsection \<open>The main function\<close>

text \<open>The tree under \<^verbatim>\<open>build/icons\<close>: files and directories, by entry name.\<close>

datatype node = File | Folder "(string \<times> node) list"

text \<open>
  \<^verbatim>\<open>findSvgs(dir, baseDir)\<close>; \<open>rel\<close> is the path of \<open>dir\<close> relative to \<open>baseDir\<close> (empty, or
  ending in a slash). A result is the pair of \<^verbatim>\<open>localPath\<close> and \<^verbatim>\<open>r2Key\<close>.
\<close>

fun findSvgs :: "string \<Rightarrow> string \<Rightarrow> (string \<times> node) list \<Rightarrow> (string \<times> string) list" where
  "findSvgs base rel entries =
     concat (map (\<lambda>(entry, n).
        case n of
          Folder sub \<Rightarrow> findSvgs base (rel @ entry @ ''/'') sub
        | File \<Rightarrow>
            if endsWith entry ''.svg''
            then [(base @ ''/'' @ rel @ entry, rel @ entry)] else []) entries)"

text \<open>
  What a run of the script meets: whether \<^verbatim>\<open>manifest.json\<close> is there (it parses when it
  is), the tree under the build directory, which uploads to object storage succeed, and
  the order in which the pending uploads end (the choice of each turn of the event loop).
\<close>

record upload_env =
  manifest_exists :: bool
  build_dir :: "(string \<times> node) list"
  r2_ok :: "string \<times> string \<Rightarrow> bool"
  finish_order :: "nat \<Rightarrow> nat"

datatype upload = KvPut string | R2Put string

definition CONCURRENCY :: nat where
  "CONCURRENCY = 15"

text \<open>The build directory, as a path from the package directory.\<close>

definition BUILD_DIR :: string where
  "BUILD_DIR = ''build/icons''"

text \<open>
  The uploads a run attempts, in the order of their start; \<open>Inl 1\<close> is
  \<^verbatim>\<open>process.exit(1)\<close>. The manifest phase attempts both keys (\<^verbatim>\<open>runSync\<close> catches a
  failure and returns \<^verbatim>\<open>false\<close>). The SVG phase waits for \<^verbatim>\<open>parallelMap\<close>, which has
  returned after as many turns of the event loop as there are files.
\<close>

definition main_upload :: "string list \<Rightarrow> upload_env \<Rightarrow> nat + upload list" where
  "main_upload args env =
     (if \<not> manifest_exists env then Inl 1
      else Inr (
        (if uploadManifest args then [KvPut ''icon-manifest'', KvPut ''icon-libraries''] else [])
        @ (if uploadSvgs args
           then (let allSvgs = findSvgs BUILD_DIR [] (build_dir env);
                     allSvgs = (case libFilter args of
                                  Some lib \<Rightarrow> if lib \<noteq> []
                                    then filter (\<lambda>s. startsWith (snd s) (lib @ ''/'')) allSvgs
                                    else allSvgs
                                | None \<Rightarrow> allSvgs)
                 in map (\<lambda>s. R2Put (snd s))
                      (calls (run_pool allSvgs (r2_ok env) CONCURRENCY
                                (map (finish_order env) [0..<length allSvgs]))))
           else [])))"

subsection \<open>What the pool keeps true\<close>

text \<open>
  The number of waiting workers whose item index satisfies \<open>P\<close>, as a sum over the
  workers.
\<close>

fun pending :: "(nat \<Rightarrow> bool) \<Rightarrow> worker \<Rightarrow> nat" where
  "pending P (Awaiting i) = (if P i then 1 else 0)"
| "pending P w = 0"

definition pending_sum :: "(nat \<Rightarrow> bool) \<Rightarrow> 'a pool \<Rightarrow> nat" where
  "pending_sum P s = sum_list (map (pending P) (workers s))"

text \<open>
  The items with an index below \<open>index\<close> are the ones \<open>fn\<close> was invoked on; each of them
  is either counted already or still waited for; and a worker returns only when no item
  is left.
\<close>

definition pool_inv :: "'a list \<Rightarrow> ('a \<Rightarrow> bool) \<Rightarrow> 'a pool \<Rightarrow> bool" where
  "pool_inv items fn s \<longleftrightarrow>
     index s \<le> length items
   \<and> calls s = take (index s) items
   \<and> completed s + pending_sum (\<lambda>i. fn (items ! i)) s
       = length (filter fn (take (index s) items))
   \<and> failed s + pending_sum (\<lambda>i. \<not> fn (items ! i)) s
       = length (filter (\<lambda>x. \<not> fn x) (take (index s) items))
   \<and> (Returned \<in> set (workers s) \<longrightarrow> index s = length items)"

text \<open>The number of turns of the event loop still to come.\<close>

definition potential :: "'a list \<Rightarrow> 'a pool \<Rightarrow> nat" where
  "potential items s = (length items - index s) + pending_sum (\<lambda>i. True) s"

text \<open>After the start every worker waits or has returned.\<close>

definition pool_ok :: "'a list \<Rightarrow> ('a \<Rightarrow> bool) \<Rightarrow> nat \<Rightarrow> 'a pool \<Rightarrow> bool" where
  "pool_ok items fn c s \<longleftrightarrow>
     pool_inv items fn s \<and> length (workers s) = c \<and> NotStarted \<notin> set (workers s)"

section \<open>Style suffixes of file names (process-icons.js)\<close>

text \<open>
  Bootstrap: \<^verbatim>\<open>name.replace(/-fill$/, '')\<close>, the name the categorizer sees for a file of
  the filled style.
\<close>

definition bootstrap_baseName :: "string \<Rightarrow> string" where
  "bootstrap_baseName name = replace_at_end ''-fill'' name"

text \<open>Remix Icon: the style and the logical name of a raw name.\<close>

definition remix_split :: "string \<Rightarrow> string \<times> string" where
  "remix_split rawName =
     (if endsWith rawName ''-fill'' then (''filled'', replace_at_end ''-fill'' rawName)
      else if endsWith rawName ''-line'' then (''outline'', replace_at_end ''-line'' rawName)
      else (''outline'', rawName))"

text \<open>Material Design Icons: the style and the base name.\<close>

definition mdi_split :: "string \<Rightarrow> string \<times> string" where
  "mdi_split name =
     (let isOutline = endsWith name ''-outline''
      in (if isOutline then ''outline'' else ''filled'',
          if isOutline then replace_at_end ''-outline'' name else name))"

text \<open>Ionicons: the style and the logical name of a raw name.\<close>

definition ionicons_split :: "string \<Rightarrow> string \<times> string" where
  "ionicons_split rawName =
     (if endsWith rawName ''-outline'' then (''outline'', replace_at_end ''-outline'' rawName)
      else if endsWith rawName ''-sharp'' then (''sharp'', replace_at_end ''-sharp'' rawName)
      else (''filled'', rawName))"

text \<open>
  Phosphor: \<^verbatim>\<open>file.replace('.svg', '').replace(style.suffix, '')\<close>, with string patterns:
  the first occurrence of each is removed.
\<close>

definition phosphor_strip :: "string \<Rightarrow> string \<Rightarrow> string" where
  "phosphor_strip suf name = remove_first suf name"

definition phosphor_name :: "string \<Rightarrow> string \<Rightarrow> string" where
  "phosphor_name suf file = phosphor_strip suf (remove_first ''.svg'' file)"

section \<open>The library adapters (process-icons.js)\<close>

subsection \<open>Icon records and helpers\<close>

text \<open>
  An icon record. The category is what the categorizer or a category map gave; the tags
  of a Lucide icon are read with \<^verbatim>\<open>tagsData[name]\<close> and can be an inherited member too.
\<close>

record icon =
  icon_id :: string
  icon_name :: string
  library :: string
  category :: "string js"
  icon_type :: string
  tags :: "string list js"

text \<open>
  \<^verbatim>\<open>filename.replace(/-/g, ' ').replace(/\b\w/g, c => c.toUpperCase())\<close>: every word
  character (\<^verbatim>\<open>[A-Za-z0-9_]\<close>) that does not follow a word character is put in upper case.
\<close>

definition is_upper :: "char \<Rightarrow> bool" where
  "is_upper c = (let n = (of_char c :: nat) in 65 \<le> n \<and> n \<le> 90)"

definition is_lower :: "char \<Rightarrow> bool" where
  "is_lower c = (let n = (of_char c :: nat) in 97 \<le> n \<and> n \<le> 122)"

definition is_digit :: "char \<Rightarrow> bool" where
  "is_digit c = (let n = (of_char c :: nat) in 48 \<le> n \<and> n \<le> 57)"

definition is_word :: "char \<Rightarrow> bool" where
  "is_word c = (is_upper c \<or> is_lower c \<or> is_digit c \<or> c = CHR ''_'')"

definition upper_word_char :: "char \<Rightarrow> char" where
  "upper_word_char c = (if is_lower c then char_of (of_char c - (32::nat)) else c)"

fun capitalize :: "bool \<Rightarrow> string \<Rightarrow> string" where
  "capitalize after_word [] = []"
| "capitalize after_word (c # cs) =
     (if is_word c \<and> \<not> after_word then upper_word_char c else c) # capitalize (is_word c) cs"

definition toDisplayName :: "string \<Rightarrow> string" where
  "toDisplayName filename =
     capitalize False (map (\<lambda>c. if c = CHR ''-'' then CHR '' '' else c) filename)"

text \<open>\<^verbatim>\<open>fs.readdirSync(dir).filter(f => f.endsWith('.svg'))\<close>, on the listing of \<open>dir\<close>.\<close>

definition svg_files :: "string list \<Rightarrow> string list" where
  "svg_files entries = filter (\<lambda>f. endsWith f ''.svg'') entries"

text \<open>
  An object filled by assignments \<^verbatim>\<open>obj[key] = value\<close> in the given order: the last
  assignment to a key is the one a later read finds.
\<close>

definition assigned :: "(string \<times> 'a) list \<Rightarrow> (string \<times> 'a) list" where
  "assigned assignments = rev assignments"

text \<open>
  The first entry of \<open>keys\<close> that a category map sends to a truthy value:
  \<^verbatim>\<open>for (const c of keys) { if (MAP[c]) { category = MAP[c]; break; } }\<close>.
\<close>

fun first_mapped :: "(string \<times> string) list \<Rightarrow> string list \<Rightarrow> string js option" where
  "first_mapped m [] = None"
| "first_mapped m (c # cs) =
     (if truthy (get_prop m c) then get_prop m c else first_mapped m cs)"

text \<open>What aborts a run: an exception nobody catches.\<close>

datatype error = ENOENT string | ModuleNotFound string | TypeError string

text \<open>
  The icon of a file whose category comes from the categorizer alone (Heroicons,
  Bootstrap's outline style, Iconoir).
\<close>

definition keyword_icon :: "string \<Rightarrow> string \<Rightarrow> string \<Rightarrow> string \<Rightarrow> icon" where
  "keyword_icon lib dir ty file =
     (let name = remove_first ''.svg'' file
      in \<lparr>icon_id = lib @ ''/'' @ dir @ ''/'' @ name, icon_name = toDisplayName name,
          library = lib, category = categorizeByKeywords name (Some []),
          icon_type = ty, tags = Val []\<rparr>)"

subsection \<open>What the adapters read\<close>

text \<open>
  The metadata files, parsed. An entry of Tabler's \<^verbatim>\<open>icons.json\<close> may lack its category
  or its tags; the tags are given as \<^verbatim>\<open>String(t)\<close> makes them.
\<close>

record tabler_meta =
  tm_category :: "string option"
  tm_tags :: "string list option"

record phosphor_entry =
  pe_name :: string
  pe_categories :: "string list"
  pe_tags :: "string list"

record mdi_entry =
  me_name :: string
  me_deprecated :: bool
  me_tags :: "string list"
  me_aliases :: "string list"

record iconpark_meta =
  ip_name :: string
  ip_category :: string

text \<open>
  An export of the IconPark library: not a function, or a function from the theme to
  the SVG text; \<open>None\<close> when the call throws or returns no string.
\<close>

datatype export = NotAFunction | Render "string \<Rightarrow> string option"

text \<open>
  The paths a run reads. \<open>None\<close>: the path does not exist. A directory is the list of
  its entry names as \<^verbatim>\<open>readdirSync\<close> returns them; where the script looks into
  subdirectories an entry comes with its own listing (\<open>None\<close> for a plain file). Entries
  named \<^verbatim>\<open>*.svg\<close> are readable files, the metadata files parse and have the shape above,
  no key assigned to a lookup object is \<^verbatim>\<open>__proto__\<close>, and a directory that exists
  or that \<^verbatim>\<open>fs.mkdirSync\<close> has just made can be written to. The cleaned copies of the
  SVG files that a run writes are not part of the model; each is \<^verbatim>\<open>cleanSvg\<close> of the
  file read.
\<close>

record sources =
  lucide_icons_dir :: "string list option"
  lucide_tags_file :: "(string \<times> string list) list option"
  tabler_outline_dir :: "string list option"
  tabler_filled_dir :: "string list option"
  tabler_categories_dir :: "(string \<times> string list option) list option"
  tabler_meta_file :: "(string \<times> tabler_meta) list option"
  heroicons_outline_dir :: "string list option"
  heroicons_solid_dir :: "string list option"
  phosphor_assets_dir :: "(string \<times> string list) list option"
  phosphor_meta_file :: "phosphor_entry list option"
  bootstrap_icons_dir :: "string list option"
  iconoir_regular_dir :: "string list option"
  iconoir_solid_dir :: "string list option"
  remix_icons_dir :: "(string \<times> string list option) list option"
  fluent_icons_dir :: "string list option"
  mdi_svg_dir :: "string list option"
  mdi_meta_file :: "mdi_entry list option"
  ionicons_svg_dir :: "string list option"
  iconpark_meta_file :: "iconpark_meta list option"
  iconpark_lib :: "(string \<times> export) list option"

subsection \<open>Lucide\<close>

text \<open>
  \<^verbatim>\<open>tagsData[name] || []\<close>: an array is truthy, so is an inherited member. In the
  second case the name is a key of \<^verbatim>\<open>Object.prototype\<close>, the categorizer returns at its
  first step and never looks at the tags it is given.
\<close>

definition lucide_icon :: "(string \<times> string list) list \<Rightarrow> string \<Rightarrow> icon" where
  "lucide_icon tagsData file =
     (let name = remove_first ''.svg'' file;
          tags = (case get_prop tagsData name of None \<Rightarrow> Val [] | Some t \<Rightarrow> t);
          category = categorizeByKeywords name
                       (case tags of Val ts \<Rightarrow> Some ts | Inherited k \<Rightarrow> None)
      in \<lparr>icon_id = ''lucide/'' @ name, icon_name = toDisplayName name,
          library = ''lucide'', category = category, icon_type = ''outline'', tags = tags\<rparr>)"

definition processLucide :: "sources \<Rightarrow> error + icon list" where
  "processLucide src =
     (case lucide_icons_dir src of
        None \<Rightarrow> Inr []
      | Some entries \<Rightarrow>
         (case lucide_tags_file src of
            None \<Rightarrow> Inl (ENOENT ''lucide-static/tags.json'')
          | Some tagsData \<Rightarrow> Inr (map (lucide_icon tagsData) (sort (svg_files entries)))))"

subsection \<open>Tabler\<close>

text \<open>The reverse lookup from the category folders: icon name to folder name.\<close>

definition tabler_category_lookup ::
  "(string \<times> string list option) list \<Rightarrow> (string \<times> string) list" where
  "tabler_category_lookup catEntries =
     assigned (concat (map (\<lambda>(folder, sub).
        case sub of
          None \<Rightarrow> []
        | Some files \<Rightarrow> map (\<lambda>svg. (remove_first ''.svg'' svg, folder)) (svg_files files))
       catEntries))"

text \<open>
  \<^verbatim>\<open>tablerCategoryLookup[name] || (meta && meta.category) || ''\<close>, then
  \<^verbatim>\<open>TABLER_CATEGORY_MAP[tablerCat] || categorizeByKeywords(name, meta?.tags)\<close>. An
  inherited \<^verbatim>\<open>meta\<close> is a function: it has neither a category nor tags.
\<close>

definition tabler_icon ::
  "(string \<times> string) list \<Rightarrow> (string \<times> tabler_meta) list \<Rightarrow> string \<Rightarrow> string \<Rightarrow> icon" where
  "tabler_icon lookup tablerMeta ty file =
     (let name = remove_first ''.svg'' file;
          meta = (case get_prop tablerMeta name of Some (Val m) \<Rightarrow> Some m | _ \<Rightarrow> None);
          meta_category = (case meta of Some m \<Rightarrow> tm_category m | None \<Rightarrow> None);
          meta_tags = (case meta of Some m \<Rightarrow> tm_tags m | None \<Rightarrow> None);
          tablerCat = get_or lookup name
                        (case meta_category of Some c \<Rightarrow> Val c | None \<Rightarrow> Val []);
          category = get_or TABLER_CATEGORY_MAP (String_of tablerCat)
                       (categorizeByKeywords name meta_tags)
      in \<lparr>icon_id = ''tabler/'' @ ty @ ''/'' @ name, icon_name = toDisplayName name,
          library = ''tabler'', category = category, icon_type = ty,
          tags = Val (case meta_tags of Some ts \<Rightarrow> ts | None \<Rightarrow> [])\<rparr>)"

definition processTabler :: "sources \<Rightarrow> error + icon list" where
  "processTabler src =
     (case tabler_outline_dir src of
        None \<Rightarrow> Inr []
      | Some outline \<Rightarrow>
         (case tabler_meta_file src of
            None \<Rightarrow> Inl (ENOENT ''@tabler/icons/icons.json'')
          | Some tablerMeta \<Rightarrow>
             (let lookup = (case tabler_categories_dir src of
                              None \<Rightarrow> []
                            | Some catEntries \<Rightarrow> tabler_category_lookup catEntries)
              in case tabler_filled_dir src of
                   None \<Rightarrow> Inl (ENOENT ''@tabler/icons/icons/filled'')
                 | Some filled \<Rightarrow>
                     Inr (map (tabler_icon lookup tablerMeta ''outline'')
                            (sort (svg_files outline))
                          @ map (tabler_icon lookup tablerMeta ''filled'')
                              (sort (svg_files filled))))))"

subsection \<open>Heroicons\<close>

definition processHeroicons :: "sources \<Rightarrow> error + icon list" where
  "processHeroicons src =
     (case heroicons_outline_dir src of
        None \<Rightarrow> Inr []
      | Some outline \<Rightarrow>
         (case heroicons_solid_dir src of
            None \<Rightarrow> Inl (ENOENT ''heroicons/24/solid'')
          | Some solid \<Rightarrow>
              Inr (map (keyword_icon ''heroicons'' ''outline'' ''outline'')
                     (sort (svg_files outline))
                   @ map (keyword_icon ''heroicons'' ''solid'' ''solid'')
                       (sort (svg_files solid)))))"

subsection \<open>Phosphor\<close>

text \<open>The styles taken over: directory, type and file name suffix.\<close>

definition PHOSPHOR_STYLES :: "(string \<times> string \<times> string) list" where
  "PHOSPHOR_STYLES =
     [(''regular'', ''outline'', ''''), (''bold'', ''bold'', ''-bold''),
      (''fill'', ''filled'', ''-fill'')]"

definition phosphor_icon ::
  "(string \<times> phosphor_entry) list \<Rightarrow> string \<times> string \<times> string \<Rightarrow> string \<Rightarrow> icon" where
  "phosphor_icon metaLookup style file =
     (case style of (dir, ty, suf) \<Rightarrow>
        (let name = phosphor_name suf file;
             meta = (case get_prop metaLookup name of Some (Val m) \<Rightarrow> Some m | _ \<Rightarrow> None);
             cats = (case meta of Some m \<Rightarrow> pe_categories m | None \<Rightarrow> []);
             tags = filter (\<lambda>t. t \<noteq> ''*new*'')
                      (case meta of Some m \<Rightarrow> pe_tags m | None \<Rightarrow> []);
             category = (case first_mapped PHOSPHOR_CATEGORY_MAP cats of
                           Some c \<Rightarrow> c | None \<Rightarrow> Val ''misc'');
             category = (if category = Val ''misc'' \<and> length cats = 0
                         then categorizeByKeywords name (Some tags) else category)
         in \<lparr>icon_id = ''phosphor/'' @ dir @ ''/'' @ name, icon_name = toDisplayName name,
             library = ''phosphor'', category = category, icon_type = ty,
             tags = Val tags\<rparr>))"

definition processPhosphor :: "sources \<Rightarrow> error + icon list" where
  "processPhosphor src =
     (case phosphor_assets_dir src of
        None \<Rightarrow> Inr []
      | Some subdirs \<Rightarrow>
         (case phosphor_meta_file src of
            None \<Rightarrow> Inl (ModuleNotFound ''@phosphor-icons/core/dist/index.umd.js'')
          | Some entries \<Rightarrow>
             (let metaLookup = assigned (map (\<lambda>entry. (pe_name entry, entry)) entries)
              in Inr (concat (map (\<lambda>style.
                   case map_of subdirs (fst style) of
                     None \<Rightarrow> []
                   | Some files \<Rightarrow>
                      map (phosphor_icon metaLookup style) (sort (svg_files files)))
                  PHOSPHOR_STYLES)))))"

subsection \<open>Bootstrap Icons\<close>

definition bootstrap_filled_icon :: "string \<Rightarrow> icon" where
  "bootstrap_filled_icon file =
     (let name = remove_first ''.svg'' file;
          baseName = bootstrap_baseName name
      in \<lparr>icon_id = ''bootstrap/filled/'' @ name, icon_name = toDisplayName name,
          library = ''bootstrap'', category = categorizeByKeywords baseName (Some []),
          icon_type = ''filled'', tags = Val []\<rparr>)"

definition processBootstrap :: "sources \<Rightarrow> error + icon list" where
  "processBootstrap src =
     (case bootstrap_icons_dir src of
        None \<Rightarrow> Inr []
      | Some entries \<Rightarrow>
         (let allFiles = sort (svg_files entries);
              outlineFiles = filter (\<lambda>f. \<not> endsWith f ''-fill.svg'') allFiles;
              fillFiles = filter (\<lambda>f. endsWith f ''-fill.svg'') allFiles
          in Inr (map (keyword_icon ''bootstrap'' ''outline'' ''outline'') outlineFiles
                  @ map bootstrap_filled_icon fillFiles)))"

subsection \<open>Iconoir\<close>

definition processIconoir :: "sources \<Rightarrow> error + icon list" where
  "processIconoir src =
     (case iconoir_regular_dir src of
        None \<Rightarrow> Inr []
      | Some regular \<Rightarrow>
          Inr (map (keyword_icon ''iconoir'' ''regular'' ''outline'') (sort (svg_files regular))
               @ (case iconoir_solid_dir src of
                    None \<Rightarrow> []
                  | Some solid \<Rightarrow>
                      map (keyword_icon ''iconoir'' ''solid'' ''solid'')
                        (sort (svg_files solid)))))"

subsection \<open>Remix Icon\<close>

definition remix_icon :: "string js \<Rightarrow> string \<Rightarrow> icon" where
  "remix_icon ourCategory file =
     (case remix_split (remove_first ''.svg'' file) of (ty, name) \<Rightarrow>
        \<lparr>icon_id = ''remix/'' @ ty @ ''/'' @ name, icon_name = toDisplayName name,
         library = ''remix'', category = ourCategory, icon_type = ty, tags = Val []\<rparr>)"

definition processRemixIcon :: "sources \<Rightarrow> error + icon list" where
  "processRemixIcon src =
     (case remix_icons_dir src of
        None \<Rightarrow> Inr []
      | Some entries \<Rightarrow>
          Inr (concat (map (\<lambda>(catDir, sub).
                 case sub of
                   None \<Rightarrow> []
                 | Some files \<Rightarrow>
                    map (remix_icon (get_or REMIX_CATEGORY_MAP catDir (Val ''misc'')))
                      (svg_files files))
               entries)))"

subsection \<open>Fluent UI Icons\<close>

text \<open>\<^verbatim>\<open>file.replace(SUFFIX, '').replace(/_/g, '-')\<close>\<close>

definition fluent_name :: "string \<Rightarrow> string \<Rightarrow> string" where
  "fluent_name suf file =
     map (\<lambda>c. if c = CHR ''_'' then CHR ''-'' else c) (remove_first suf file)"

definition fluent_icon :: "string \<Rightarrow> string \<Rightarrow> string \<Rightarrow> icon" where
  "fluent_icon ty suf file =
     (let name = fluent_name suf file
      in \<lparr>icon_id = ''fluent/'' @ ty @ ''/'' @ name, icon_name = toDisplayName name,
          library = ''fluent'', category = categorizeByKeywords name (Some []),
          icon_type = ty, tags = Val []\<rparr>)"

definition processFluent :: "sources \<Rightarrow> error + icon list" where
  "processFluent src =
     (case fluent_icons_dir src of
        None \<Rightarrow> Inr []
      | Some entries \<Rightarrow>
         (let allFiles = svg_files entries;
              regularFiles = filter (\<lambda>f. endsWith f ''_24_regular.svg'') allFiles;
              filledFiles = filter (\<lambda>f. endsWith f ''_24_filled.svg'') allFiles
          in Inr (map (fluent_icon ''outline'' ''_24_regular.svg'') regularFiles
                  @ map (fluent_icon ''filled'' ''_24_filled.svg'') filledFiles)))"

subsection \<open>Material Design Icons\<close>

text \<open>
  One file: skipped (\<open>Inr None\<close>) when its entry is deprecated. An inherited entry is a
  function without \<^verbatim>\<open>tags\<close>, so \<^verbatim>\<open>entry.tags.length\<close> throws.
\<close>

definition mdi_icon :: "(string \<times> mdi_entry) list \<Rightarrow> string \<Rightarrow> error + icon option" where
  "mdi_icon metaLookup file =
     (let name = remove_first ''.svg'' file
      in case get_prop metaLookup name of
           Some (Inherited k) \<Rightarrow>
             Inl (TypeError ''Cannot read properties of undefined (reading length)'')
         | entry \<Rightarrow>
            (let entry = (case entry of Some (Val e) \<Rightarrow> Some e | _ \<Rightarrow> None)
             in if (case entry of Some e \<Rightarrow> me_deprecated e | None \<Rightarrow> False) then Inr None
                else
                 (case mdi_split name of (ty, baseName) \<Rightarrow>
                   (let entry_tags = (case entry of Some e \<Rightarrow> me_tags e | None \<Rightarrow> []);
                        category = (case first_mapped MDI_CATEGORY_MAP entry_tags of
                                      Some c \<Rightarrow> c | None \<Rightarrow> Val ''misc'');
                        category = (if category = Val ''misc''
                                    then categorizeByKeywords baseName
                                           (Some (case entry of Some e \<Rightarrow> me_aliases e
                                                  | None \<Rightarrow> []))
                                    else category)
                    in Inr (Some
                         \<lparr>icon_id = ''mdi/'' @ ty @ ''/'' @ name,
                          icon_name = toDisplayName name, library = ''mdi'',
                          category = category, icon_type = ty, tags = Val entry_tags\<rparr>)))))"

text \<open>The loop over the files: the first exception ends it.\<close>

fun collect_icons :: "(error + icon option) list \<Rightarrow> error + icon list" where
  "collect_icons [] = Inr []"
| "collect_icons (r # rs) =
     (case r of
        Inl e \<Rightarrow> Inl e
      | Inr x \<Rightarrow>
         (case collect_icons rs of
            Inl e \<Rightarrow> Inl e
          | Inr xs \<Rightarrow> Inr ((case x of None \<Rightarrow> [] | Some i \<Rightarrow> [i]) @ xs)))"

definition processMdi :: "sources \<Rightarrow> error + icon list" where
  "processMdi src =
     (case mdi_svg_dir src of
        None \<Rightarrow> Inr []
      | Some entries \<Rightarrow>
         (case mdi_meta_file src of
            None \<Rightarrow> Inl (ENOENT ''@mdi/svg/meta.json'')
          | Some meta \<Rightarrow>
             (let metaLookup = assigned (map (\<lambda>entry. (me_name entry, entry)) meta)
              in collect_icons (map (mdi_icon metaLookup) (sort (svg_files entries))))))"

subsection \<open>Ionicons\<close>

definition ionicons_icon :: "string \<Rightarrow> icon" where
  "ionicons_icon rawName =
     (case ionicons_split rawName of (ty, name) \<Rightarrow>
        \<lparr>icon_id = ''ionicons/'' @ ty @ ''/'' @ name, icon_name = toDisplayName name,
         library = ''ionicons'', category = categorizeByKeywords name (Some []),
         icon_type = ty, tags = Val []\<rparr>)"

definition processIonicons :: "sources \<Rightarrow> error + icon list" where
  "processIonicons src =
     (case ionicons_svg_dir src of
        None \<Rightarrow> Inr []
      | Some entries \<Rightarrow>
          Inr (map ionicons_icon
                 (filter (\<lambda>rawName. \<not> startsWith rawName ''logo-'')
                    (map (remove_first ''.svg'') (sort (svg_files entries))))))"

subsection \<open>IconPark\<close>

text \<open>
  The export name in kebab case:
  \<^verbatim>\<open>key.replace(/([a-z0-9])([A-Z])/g, '$1-$2').replace(/([A-Z])([A-Z][a-z])/g, '$1-$2')\<close>
  and \<^verbatim>\<open>toLowerCase()\<close>. No two matches of either pattern overlap, so a hyphen goes in
  wherever the pattern matches.
\<close>

fun hyphenate1 :: "string \<Rightarrow> string" where
  "hyphenate1 (a # b # cs) =
     (if (is_lower a \<or> is_digit a) \<and> is_upper b then a # CHR ''-'' # hyphenate1 (b # cs)
      else a # hyphenate1 (b # cs))"
| "hyphenate1 cs = cs"

fun hyphenate2 :: "string \<Rightarrow> string" where
  "hyphenate2 (a # b # c # cs) =
     (if is_upper a \<and> is_upper b \<and> is_lower c then a # CHR ''-'' # hyphenate2 (b # c # cs)
      else a # hyphenate2 (b # c # cs))"
| "hyphenate2 cs = cs"

definition kebab :: "string \<Rightarrow> string" where
  "kebab key = toLowerCase (hyphenate2 (hyphenate1 key))"

definition ICONPARK_THEMES :: "(string \<times> string) list" where
  "ICONPARK_THEMES = [(''outline'', ''outline''), (''filled'', ''filled'')]"

text \<open>
  The icons of one metadata entry: none when no export matches the name or the export
  is no function (an inherited \<^verbatim>\<open>pascalLookup[name]\<close> names no export), one per theme
  that renders to a non-empty string.
\<close>

definition iconpark_icons ::
  "(string \<times> export) list \<Rightarrow> (string \<times> string) list \<Rightarrow> iconpark_meta \<Rightarrow> icon list" where
  "iconpark_icons lib pascalLookup meta =
     (let name = ip_name meta;
          category = get_or ICONPARK_CATEGORY_MAP (ip_category meta) (Val ''misc'')
      in case get_prop pascalLookup name of
           Some (Val exportKey) \<Rightarrow>
             (case (if exportKey = [] then None else map_of lib exportKey) of
                Some (Render render) \<Rightarrow>
                  concat (map (\<lambda>(theme, ty).
                    case render theme of
                      None \<Rightarrow> []
                    | Some svg \<Rightarrow>
                        if svg = [] then []
                        else [\<lparr>icon_id = ''iconpark/'' @ ty @ ''/'' @ name,
                               icon_name = toDisplayName name, library = ''iconpark'',
                               category = category, icon_type = ty, tags = Val []\<rparr>])
                   ICONPARK_THEMES)
              | _ \<Rightarrow> [])
         | _ \<Rightarrow> [])"

definition processIconPark :: "sources \<Rightarrow> error + icon list" where
  "processIconPark src =
     (case iconpark_meta_file src of
        None \<Rightarrow> Inr []
      | Some iconsMeta \<Rightarrow>
         (case iconpark_lib src of
            None \<Rightarrow> Inl (ModuleNotFound ''@icon-park/svg/lib/index.js'')
          | Some lib \<Rightarrow>
             (let exportKeys = filter (\<lambda>k. k \<noteq> ''DEFAULT_ICON_CONFIGS'' \<and> k \<noteq> ''setConfig'')
                                 (map fst lib);
                  pascalLookup = assigned (map (\<lambda>key. (kebab key, key)) exportKeys)
              in Inr (concat (map (iconpark_icons lib pascalLookup) iconsMeta)))))"

section \<open>The manifest builder (process-icons.js, main)\<close>

text \<open>
  \<^verbatim>\<open>[...processLucide(), ...processTabler(), ...]\<close>: the adapters run in this order, and
  an exception of one of them ends the run.
\<close>

definition ADAPTERS :: "(sources \<Rightarrow> error + icon list) list" where
  "ADAPTERS =
     [processLucide, processTabler, processHeroicons, processPhosphor, processBootstrap,
      processIconoir, processRemixIcon, processFluent, processMdi, processIonicons,
      processIconPark]"

fun concat_results :: "(error + icon list) list \<Rightarrow> error + icon list" where
  "concat_results [] = Inr []"
| "concat_results (r # rs) =
     (case r of
        Inl e \<Rightarrow> Inl e
      | Inr xs \<Rightarrow> (case concat_results rs of Inl e \<Rightarrow> Inl e | Inr ys \<Rightarrow> Inr (xs @ ys)))"

definition allIcons :: "sources \<Rightarrow> error + icon list" where
  "allIcons src = concat_results (map (\<lambda>adapter. adapter src) ADAPTERS)"

text \<open>
  \<^verbatim>\<open>stats[key] = (stats[key] || 0) + 1\<close> on an object of counters, for a key that is
  no member of \<^verbatim>\<open>Object.prototype\<close> (lemma \<open>stats_keys_own\<close>: the keys of the icons the
  adapters return never are). A new key goes to the end.
\<close>

fun bump :: "(string \<times> nat) list \<Rightarrow> string \<Rightarrow> (string \<times> nat) list" where
  "bump [] key = [(key, 1)]"
| "bump ((k, n) # stats) key = (if k = key then (k, n + 1) # stats else (k, n) # bump stats key)"

definition count_keys :: "string list \<Rightarrow> (string \<times> nat) list" where
  "count_keys keys = foldl bump [] keys"

text \<open>\<^verbatim>\<open>stats[key] || 0\<close>\<close>

definition count_of :: "(string \<times> nat) list \<Rightarrow> string \<Rightarrow> nat" where
  "count_of stats key = (case map_of stats key of Some n \<Rightarrow> n | None \<Rightarrow> 0)"

text \<open>
  \<^verbatim>\<open>Object.entries(stats).sort((a, b) => b[1] - a[1])\<close>: by falling count, entries of
  equal count in insertion order (the sort is stable).
\<close>

definition breakdown :: "(string \<times> nat) list \<Rightarrow> (string \<times> nat) list" where
  "breakdown stats = sort_key (\<lambda>entry. - int (snd entry)) stats"

record category_def =
  cat_id :: string
  cat_label :: string
  cat_count :: nat

text \<open>The static text of a library entry, without its description.\<close>

definition LIBRARIES ::
  "(string \<times> string \<times> string \<times> string \<times> string \<times> string \<times> string) list" where
  "LIBRARIES = [
     (''lucide'', ''Lucide'', ''0.574.0'',
      ''https://lucide.dev'', ''ISC'',
      ''https://github.com/lucide-icons/lucide/blob/main/LICENSE'',
      ''Lucide Contributors''),
     (''tabler'', ''Tabler Icons'', ''3.36.1'',
      ''https://tabler.io/icons'', ''MIT'',
      ''https://github.com/tabler/tabler-icons/blob/main/LICENSE'',
      ''Tabler Icons Contributors''),
     (''heroicons'', ''Heroicons'', ''2.2.0'',
      ''https://heroicons.com'', ''MIT'',
      ''https://github.com/tailwindlabs/heroicons/blob/master/LICENSE'',
      ''Tailwind Labs''),
     (''phosphor'', ''Phosphor Icons'', ''2.1.1'',
      ''https://phosphoricons.com'', ''MIT'',
      ''https://github.com/phosphor-icons/core/blob/main/LICENSE'',
      ''Phosphor Icons Contributors''),
     (''bootstrap'', ''Bootstrap Icons'', ''1.13.1'',
      ''https://icons.getbootstrap.com'', ''MIT'',
      ''https://github.com/twbs/icons/blob/main/LICENSE'',
      ''The Bootstrap Authors''),
     (''iconoir'', ''Iconoir'', ''7.11.0'',
      ''https://iconoir.com'', ''MIT'',
      ''https://github.com/iconoir-icons/iconoir/blob/main/LICENSE'',
      ''Luca Burgio''),
     (''remix'', ''Remix Icon'', ''4.9.1'',
      ''https://remixicon.com'', ''Apache-2.0'',
      ''https://github.com/Remix-Design/RemixIcon/blob/master/License'',
      ''Remix Design''),
     (''fluent'', ''Fluent UI Icons'', ''1.1.319'',
      ''https://github.com/microsoft/fluentui-system-icons'', ''MIT'',
      ''https://github.com/microsoft/fluentui-system-icons/blob/main/LICENSE'',
      ''Microsoft''),
     (''mdi'', ''Material Design Icons'', ''7.4.47'',
      ''https://materialdesignicons.com'', ''Apache-2.0'',
      ''https://github.com/Templarian/MaterialDesign/blob/master/LICENSE'',
      ''Austin Andrews & Contributors''),
     (''ionicons'', ''Ionicons'', ''8.0.13'',
      ''https://ionic.io/ionicons'', ''MIT'',
      ''https://github.com/ionic-team/ionicons/blob/main/LICENSE'',
      ''Ionic Team''),
     (''iconpark'', ''IconPark'', ''1.4.2'',
      ''https://iconpark.oceanengine.com'', ''Apache-2.0'',
      ''https://github.com/nicedoc/icon-park/blob/master/LICENSE'',
      ''ByteDance'')]"

record library_meta =
  lib_id :: string
  lib_name :: string
  lib_version :: string
  lib_url :: string
  lib_license :: string
  lib_licenseUrl :: string
  lib_attribution :: string
  lib_iconCount :: nat

record manifest =
  version :: nat
  generated :: string
  icons :: "icon list"
  categories :: "category_def list"
  libraries :: "library_meta list"

record uncategorized_icon =
  u_id :: string
  u_name :: string
  u_tags :: "string list js"

record report =
  totalIcons :: nat
  categorized :: nat
  uncategorized :: nat
  libraryBreakdown :: "(string \<times> nat) list"
  typeBreakdown :: "(string \<times> nat) list"
  categoryBreakdown :: "(string \<times> nat) list"
  uncategorizedIcons :: "uncategorized_icon list"

text \<open>The three documents a run writes, before \<^verbatim>\<open>JSON.stringify\<close>.\<close>

record outputs =
  manifest_json :: manifest
  libraries_json :: "library_meta list"
  report_json :: report

definition categoryStats :: "icon list \<Rightarrow> (string \<times> nat) list" where
  "categoryStats ics = count_keys (map (\<lambda>icon. String_of (category icon)) ics)"

definition libraryStats :: "icon list \<Rightarrow> (string \<times> nat) list" where
  "libraryStats ics = count_keys (map library ics)"

definition typeStats :: "icon list \<Rightarrow> (string \<times> nat) list" where
  "typeStats ics = count_keys (map icon_type ics)"

definition uncategorized_of :: "icon list \<Rightarrow> uncategorized_icon list" where
  "uncategorized_of ics =
     map (\<lambda>icon. \<lparr>u_id = icon_id icon, u_name = icon_name icon, u_tags = tags icon\<rparr>)
       (filter (\<lambda>icon. category icon = Val ''misc'') ics)"

text \<open>\<open>now\<close> is \<^verbatim>\<open>new Date().toISOString()\<close>, the time of the run.\<close>

definition build_manifest :: "string \<Rightarrow> icon list \<Rightarrow> manifest" where
  "build_manifest now ics =
     \<lparr>version = 3,
      generated = now,
      icons = ics,
      categories = map (\<lambda>(i, l). \<lparr>cat_id = i, cat_label = l,
                                   cat_count = count_of (categoryStats ics) i\<rparr>)
                     CATEGORIES,
      libraries = map (\<lambda>(i, n, v, u, l, lu, a).
                        \<lparr>lib_id = i, lib_name = n, lib_version = v, lib_url = u,
                         lib_license = l, lib_licenseUrl = lu, lib_attribution = a,
                         lib_iconCount = count_of (libraryStats ics) i\<rparr>)
                    LIBRARIES\<rparr>"

definition build_report :: "icon list \<Rightarrow> report" where
  "build_report ics =
     \<lparr>totalIcons = length ics,
      categorized = length ics - length (uncategorized_of ics),
      uncategorized = length (uncategorized_of ics),
      libraryBreakdown = breakdown (libraryStats ics),
      typeBreakdown = breakdown (typeStats ics),
      categoryBreakdown = breakdown (categoryStats ics),
      uncategorizedIcons = uncategorized_of ics\<rparr>"

text \<open>\<^verbatim>\<open>fs.existsSync(path)\<close>\<close>

fun existsSync :: "'a option \<Rightarrow> bool" where
  "existsSync None = False"
| "existsSync (Some entries) = True"

text \<open>An adapter has returned with at least one icon.\<close>

fun pushes :: "error + icon list \<Rightarrow> bool" where
  "pushes (Inr (i # ics)) = True"
| "pushes r = False"

text \<open>
  \<^verbatim>\<open>main\<close> writes its three files into \<^verbatim>\<open>OUTPUT_DIR\<close> (\<^verbatim>\<open>build/icons\<close>) and never
  creates that directory itself. In a run in which every adapter returns, the directory is
  created by the first \<^verbatim>\<open>fs.mkdirSync(outDir, { recursive: true })\<close> of an adapter, for
  an \<^verbatim>\<open>outDir\<close> below it: Lucide, Tabler, Heroicons, Bootstrap, Iconoir and Fluent call it
  once they are past their guard, Phosphor calls it for each of its three style
  directories that exists, and Remix Icon, MDI, Ionicons and IconPark call it just before
  each icon they push.
\<close>

definition creates_output_dir :: "sources \<Rightarrow> bool" where
  "creates_output_dir src \<longleftrightarrow>
     existsSync (lucide_icons_dir src)
     \<or> existsSync (tabler_outline_dir src)
     \<or> existsSync (heroicons_outline_dir src)
     \<or> (case phosphor_assets_dir src of
           None \<Rightarrow> False
         | Some subdirs \<Rightarrow>
             list_ex (\<lambda>style. existsSync (map_of subdirs (fst style))) PHOSPHOR_STYLES)
     \<or> existsSync (bootstrap_icons_dir src)
     \<or> existsSync (iconoir_regular_dir src)
     \<or> pushes (processRemixIcon src)
     \<or> existsSync (fluent_icons_dir src)
     \<or> pushes (processMdi src)
     \<or> pushes (processIonicons src)
     \<or> pushes (processIconPark src)"

text \<open>
  A run. \<open>output_exists\<close>: the directory \<^verbatim>\<open>build/icons\<close> is there when the run starts.
  The first \<^verbatim>\<open>fs.writeFileSync\<close> of \<^verbatim>\<open>main\<close>, that of \<^verbatim>\<open>manifest.json\<close>, throws when
  the directory is neither there nor made by an adapter.
\<close>

definition main_pipeline :: "bool \<Rightarrow> sources \<Rightarrow> string \<Rightarrow> error + outputs" where
  "main_pipeline output_exists src now =
     (case allIcons src of
        Inl e \<Rightarrow> Inl e
      | Inr ics \<Rightarrow>
         (let manifest = build_manifest now ics
          in if output_exists \<or> creates_output_dir src
             then Inr \<lparr>manifest_json = manifest,
                       libraries_json = libraries manifest,
                       report_json = build_report ics\<rparr>
             else Inl (ENOENT ''build/icons/manifest.json'')))"

subsection \<open>Well-formed icon records\<close>

text \<open>
  What every adapter keeps: the library is one of the eleven ids, the type one of the
  five styles, and a category that is a string is one of the twenty ids.
\<close>

definition library_ids :: "string list" where
  "library_ids = map fst LIBRARIES"

definition ICON_TYPES :: "string list" where
  "ICON_TYPES = [''outline'', ''filled'', ''solid'', ''bold'', ''sharp'']"

fun cat_wf :: "string js \<Rightarrow> bool" where
  "cat_wf (Val c) = (c \<in> set category_ids)"
| "cat_wf (Inherited k) = True"

definition icon_wf :: "icon \<Rightarrow> bool" where
  "icon_wf i \<longleftrightarrow>
     library i \<in> set library_ids \<and> icon_type i \<in> set ICON_TYPES \<and> cat_wf (category i)"

text \<open>The invariant of the manifest: categories and libraries of the icons are listed.\<close>

definition manifest_ok :: "manifest \<Rightarrow> bool" where
  "manifest_ok m =
     list_all (\<lambda>i. category i \<in> set (map (\<lambda>c. Val (cat_id c)) (categories m))
                 \<and> library i \<in> set (map lib_id (libraries m)))
       (icons m)"

text \<open>A machine with none of the libraries installed.\<close>

definition no_sources :: sources where
  "no_sources =
     \<lparr>lucide_icons_dir = None, lucide_tags_file = None, tabler_outline_dir = None,
      tabler_filled_dir = None, tabler_categories_dir = None, tabler_meta_file = None,
      heroicons_outline_dir = None, heroicons_solid_dir = None, phosphor_assets_dir = None,
      phosphor_meta_file = None, bootstrap_icons_dir = None, iconoir_regular_dir = None,
      iconoir_solid_dir = None, remix_icons_dir = None, fluent_icons_dir = None,
      mdi_svg_dir = None, mdi_meta_file = None, ionicons_svg_dir = None,
      iconpark_meta_file = None, iconpark_lib = None\<rparr>"


text \<open>Three icons of two libraries, as the adapters build them.\<close>

definition synthetic_icons :: "icon list" where
  "synthetic_icons =
     [keyword_icon ''heroicons'' ''outline'' ''outline'' ''arrow-up.svg'',
      keyword_icon ''heroicons'' ''solid'' ''solid'' ''bell.svg'',
      bootstrap_filled_icon ''heart-fill.svg'']"

text \<open>
  Heroicons alone is installed, with the one file \<^verbatim>\<open>constructor.svg\<close> in its outline
  directory.
\<close>

definition constructor_sources :: sources where
  "constructor_sources =
     no_sources\<lparr>heroicons_outline_dir := Some [''constructor.svg''],
                heroicons_solid_dir := Some []\<rparr>"

section \<open>Cleaning SVG text (process-icons.js, cleanSvg)\<close>

text \<open>
  \<^verbatim>\<open>svgContent.replace(/<!--[\s\S]*?-->\n?/g, '').trim()\<close>. The pattern matches at a
  position where \<^verbatim>\<open><!--\<close> starts and \<^verbatim>\<open>-->\<close> occurs somewhere behind it; the lazy
  \<^verbatim>\<open>*?\<close> stops at the first such \<^verbatim>\<open>-->\<close>, and \<^verbatim>\<open>\n?\<close> takes one line feed with it.
\<close>










section \<open>Properties of the categorizer\<close>

lemma NAME_OVERRIDES_nonempty: "(k, v) \<in> set NAME_OVERRIDES \<Longrightarrow> v \<noteq> []"
  unfolding NAME_OVERRIDES_def by auto

lemma override_wins:
  assumes "map_of NAME_OVERRIDES name = Some c"
  shows "categorizeByKeywords name tgs = Val c"
proof -
  have "c \<noteq> []" using assms NAME_OVERRIDES_nonempty map_of_SomeD by fast
  then show ?thesis using assms by (simp add: categorizeByKeywords_def get_prop_def)
qed

text \<open>
  C3. \<^verbatim>\<open>categorizeByKeywords('cloud-download', [])\<close> is \<^verbatim>\<open>'infrastructure'\<close> and
  \<^verbatim>\<open>categorizeByKeywords('eye-off', [])\<close> is \<^verbatim>\<open>'actions'\<close>, although the keyword scan
  alone would answer \<^verbatim>\<open>'files'\<close> and \<^verbatim>\<open>'people'\<close>: whenever the override table has an entry
  for the name, that entry is the result, whatever the keyword tables and the tags say.
\<close>

theorem override_precedence:
  "categorizeByKeywords ''cloud-download'' (Some []) = Val ''infrastructure''
   \<and> categorizeByKeywords ''eye-off'' (Some []) = Val ''actions''
   \<and> keyword_scan ''cloud-download'' (Some []) = ''files''
   \<and> keyword_scan ''eye-off'' (Some []) = ''people''
   \<and> (\<forall>name tgs c. map_of NAME_OVERRIDES name = Some c
          \<longrightarrow> categorizeByKeywords name tgs = Val c)"
proof (intro conjI allI impI)
  show "categorizeByKeywords ''cloud-download'' (Some []) = Val ''infrastructure''"
    by code_simp
  show "categorizeByKeywords ''eye-off'' (Some []) = Val ''actions''"
    by code_simp
  show "keyword_scan ''cloud-download'' (Some []) = ''files''"
    by code_simp
  show "keyword_scan ''eye-off'' (Some []) = ''people''"
    by code_simp
  show "categorizeByKeywords name tgs = Val c" if "map_of NAME_OVERRIDES name = Some c"
    for name tgs c using that by (rule override_wins)
qed

theorem override_precedence_witness:
  "map_of NAME_OVERRIDES ''pin-off'' = Some ''location''
   \<and> categorizeByKeywords ''pin-off'' None = Val ''location''"
proof -
  have h: "map_of NAME_OVERRIDES ''pin-off'' = Some ''location''" by code_simp
  show ?thesis using h override_precedence by blast
qed

text \<open>
  C1. The claim is that every name is mapped to one of the twenty category ids. The
  lookup \<^verbatim>\<open>NAME_OVERRIDES[name]\<close> also finds what \<^verbatim>\<open>Object.prototype\<close> holds: for the
  name \<^verbatim>\<open>constructor\<close> the function returns the built-in \<^verbatim>\<open>Object\<close> function, which
  is no category id.
\<close>

theorem categorize_constructor:
  "categorizeByKeywords ''constructor'' (Some []) = Inherited ''constructor''
   \<and> categorizeByKeywords ''constructor'' (Some []) \<notin> Val ` set category_ids"
proof -
  have "categorizeByKeywords ''constructor'' (Some []) = Inherited ''constructor''"
    by code_simp
  then show ?thesis by auto
qed

section \<open>Properties of the worker pool\<close>

lemma sum_list_map_update:
  "k < length ws \<Longrightarrow>
     sum_list (map f (ws[k := w])) + f (ws ! k) = sum_list (map f ws) + (f w :: nat)"
  by (induction ws arbitrary: k) (auto split: nat.splits)

lemma pending_sum_update:
  assumes "k < length (workers s)"
  shows "pending_sum P (s\<lparr>workers := (workers s)[k := w]\<rparr>) + pending P (workers s ! k)
         = pending_sum P s + pending P w"
  using sum_list_map_update [OF assms, of "pending P" w] by (simp add: pending_sum_def)

lemma pending_not_awaiting: "\<not> is_awaiting w \<Longrightarrow> pending P w = 0"
  by (cases w) auto

lemma pending_sum_fields [simp]:
  "pending_sum P (s\<lparr>index := a\<rparr>) = pending_sum P s"
  "pending_sum P (s\<lparr>completed := b\<rparr>) = pending_sum P s"
  "pending_sum P (s\<lparr>failed := c\<rparr>) = pending_sum P s"
  "pending_sum P (s\<lparr>calls := d\<rparr>) = pending_sum P s"
  by (simp_all add: pending_sum_def)

lemma loop_head_more:
  assumes "index s < length items"
  shows "loop_head items k s =
     s\<lparr>index := index s + 1, workers := (workers s)[k := Awaiting (index s)],
       calls := calls s @ [items ! index s]\<rparr>"
  using assms by (simp add: loop_head_def)

lemma loop_head_done:
  assumes "\<not> index s < length items"
  shows "loop_head items k s = s\<lparr>workers := (workers s)[k := Returned]\<rparr>"
  using assms by (simp add: loop_head_def)

lemma Returned_update:
  "Returned \<in> set (ws[k := Awaiting i]) \<Longrightarrow> Returned \<in> set ws"
  using set_update_subset_insert [of ws k "Awaiting i"] by auto

lemma loop_head_inv:
  assumes inv: "pool_inv items fn s" and k: "k < length (workers s)"
    and idle: "\<not> is_awaiting (workers s ! k)"
  shows "pool_inv items fn (loop_head items k s)"
proof (cases "index s < length items")
  case True
  let ?s' = "s\<lparr>workers := (workers s)[k := Awaiting (index s)]\<rparr>"
  have ok: "pending_sum P ?s' = pending_sum P s + pending P (Awaiting (index s))" for P
    using pending_sum_update [OF k, of P "Awaiting (index s)"] pending_not_awaiting [OF idle]
    by simp
  have tk: "take (Suc (index s)) items = take (index s) items @ [items ! index s]"
    using True by (simp add: take_Suc_conv_app_nth)
  have "pending_sum P (loop_head items k s) = pending_sum P ?s'" for P
    by (simp add: loop_head_more [OF True] pending_sum_def)
  then show ?thesis
    using inv True ok tk Returned_update [of "workers s" k "index s"]
    by (auto simp add: pool_inv_def loop_head_more [OF True])
next
  case False
  let ?s' = "s\<lparr>workers := (workers s)[k := Returned]\<rparr>"
  have ok: "pending_sum P ?s' = pending_sum P s" for P
    using pending_sum_update [OF k, of P Returned] pending_not_awaiting [OF idle]
    by simp
  show ?thesis
    using inv False ok by (auto simp add: pool_inv_def loop_head_done [OF False])
qed

lemma loop_head_pending:
  assumes "k < length (workers t)"
  shows "pending_sum P (loop_head items k t) + pending P (workers t ! k)
         = pending_sum P t + (if index t < length items \<and> P (index t) then 1 else 0)"
proof (cases "index t < length items")
  case True
  have "pending_sum P (loop_head items k t)
        = pending_sum P (t\<lparr>workers := (workers t)[k := Awaiting (index t)]\<rparr>)"
    by (simp add: loop_head_more [OF True] pending_sum_def)
  then show ?thesis
    using pending_sum_update [OF assms, of P "Awaiting (index t)"] True by simp
next
  case False
  then show ?thesis
    using pending_sum_update [OF assms, of P Returned] by (simp add: loop_head_done)
qed

lemma loop_head_fields:
  "index (loop_head items k t) = (if index t < length items then index t + 1 else index t)"
  "completed (loop_head items k t) = completed t"
  "failed (loop_head items k t) = failed t"
  "calls (loop_head items k t)
     = (if index t < length items then calls t @ [items ! index t] else calls t)"
  "length (workers (loop_head items k t)) = length (workers t)"
  by (simp_all add: loop_head_def)

lemma loop_head_Returned:
  assumes "Returned \<in> set (workers (loop_head items k t))"
  shows "Returned \<in> set (workers t) \<or> \<not> index t < length items"
  using assms Returned_update [of "workers t" k "index t"]
  by (cases "index t < length items") (auto simp add: loop_head_more)

lemma take_index_step:
  "i < length items \<Longrightarrow> take (Suc i) items = take i items @ [items ! i]"
  by (simp add: take_Suc_conv_app_nth)

lemma resume_inv:
  assumes inv: "pool_inv items fn s" and k: "k < length (workers s)"
    and w: "workers s ! k = Awaiting i"
  shows "pool_inv items fn (resume items fn k s)"
proof -
  define t where "t = (if fn (items ! i) then s\<lparr>completed := completed s + 1\<rparr>
                       else s\<lparr>failed := failed s + 1\<rparr>)"
  have res: "resume items fn k s = loop_head items k t"
    using w by (simp add: resume_def t_def)
  have t: "workers t = workers s" "index t = index s" "calls t = calls s"
    "completed t = completed s + (if fn (items ! i) then 1 else 0)"
    "failed t = failed s + (if fn (items ! i) then 0 else 1)"
    "pending_sum P t = pending_sum P s" for P
    by (simp_all add: t_def)
  have kt: "k < length (workers t)" using k t by simp
  have p: "pending_sum P (loop_head items k t) + (if P i then 1 else 0)
           = pending_sum P s + (if index s < length items \<and> P (index s) then 1 else 0)" for P
    using loop_head_pending [OF kt, of P items] t w by simp
  have c1: "completed (loop_head items k t)
              + pending_sum (\<lambda>i. fn (items ! i)) (loop_head items k t)
            = length (filter fn (take (index (loop_head items k t)) items))"
    using inv p [of "\<lambda>i. fn (items ! i)"] t
    by (auto simp add: pool_inv_def loop_head_fields take_index_step)
  have c2: "failed (loop_head items k t)
              + pending_sum (\<lambda>i. \<not> fn (items ! i)) (loop_head items k t)
            = length (filter (\<lambda>x. \<not> fn x) (take (index (loop_head items k t)) items))"
    using inv p [of "\<lambda>i. \<not> fn (items ! i)"] t
    by (auto simp add: pool_inv_def loop_head_fields take_index_step)
  have c3: "index (loop_head items k t) \<le> length items"
    using inv t by (simp add: pool_inv_def loop_head_fields)
  have c4: "calls (loop_head items k t) = take (index (loop_head items k t)) items"
    using inv t by (simp add: pool_inv_def loop_head_fields take_index_step)
  have c5: "Returned \<in> set (workers (loop_head items k t))
             \<longrightarrow> index (loop_head items k t) = length items"
    using inv t loop_head_Returned [of items k t]
    by (auto simp add: pool_inv_def loop_head_fields)
  show ?thesis unfolding res pool_inv_def using c1 c2 c3 c4 c5 by blast
qed

lemma loop_head_NotStarted:
  assumes "NotStarted \<in> set (workers (loop_head items k t))"
  shows "NotStarted \<in> set (workers t)"
proof -
  have "set ((workers t)[k := w]) \<subseteq> insert w (set (workers t))" for w
    by (rule set_update_subset_insert)
  then show ?thesis using assms by (auto simp add: loop_head_def split: if_splits)
qed

lemma loop_head_potential:
  assumes "k < length (workers t)"
  shows "potential items (loop_head items k t) + pending (\<lambda>i. True) (workers t ! k)
         = potential items t"
  using loop_head_pending [OF assms, of "\<lambda>i. True" items]
  by (auto simp add: potential_def loop_head_fields)

lemma loop_head_nth:
  assumes "j \<noteq> k"
  shows "workers (loop_head items k t) ! j = workers t ! j"
  using assms by (simp add: loop_head_def)

lemma loop_head_nth_same:
  assumes "k < length (workers t)"
  shows "workers (loop_head items k t) ! k \<noteq> NotStarted"
  using assms by (simp add: loop_head_def)

lemma sum_list_replicate_0: "sum_list (map (pending P) (replicate c NotStarted)) = 0"
  by (induction c) auto

lemma start_prefix:
  assumes "j \<le> c"
  shows "pool_inv items fn (fold (loop_head items) [0..<j] (init_pool c))
       \<and> length (workers (fold (loop_head items) [0..<j] (init_pool c))) = c
       \<and> (\<forall>k<c. workers (fold (loop_head items) [0..<j] (init_pool c)) ! k = NotStarted
                  \<longleftrightarrow> j \<le> k)
       \<and> potential items (fold (loop_head items) [0..<j] (init_pool c)) = length items"
  using assms
proof (induction j)
  case 0
  show ?case
    by (simp add: init_pool_def pool_inv_def potential_def pending_sum_def sum_list_replicate_0)
next
  case (Suc j)
  let ?s = "fold (loop_head items) [0..<j] (init_pool c)"
  have IH: "pool_inv items fn ?s" "length (workers ?s) = c"
    "\<forall>k<c. workers ?s ! k = NotStarted \<longleftrightarrow> j \<le> k" "potential items ?s = length items"
    using Suc by simp_all
  have j: "j < length (workers ?s)" using Suc.prems IH by simp
  have ns: "workers ?s ! j = NotStarted" using IH Suc.prems by simp
  then have idle: "\<not> is_awaiting (workers ?s ! j)" by simp
  have step: "fold (loop_head items) [0..<Suc j] (init_pool c) = loop_head items j ?s"
    by simp
  have a: "pool_inv items fn (loop_head items j ?s)"
    by (rule loop_head_inv [OF IH(1) j idle])
  have b: "length (workers (loop_head items j ?s)) = c"
    using IH by (simp add: loop_head_fields)
  have c: "\<forall>k<c. workers (loop_head items j ?s) ! k = NotStarted \<longleftrightarrow> Suc j \<le> k"
  proof (intro allI impI)
    fix k assume "k < c"
    show "workers (loop_head items j ?s) ! k = NotStarted \<longleftrightarrow> Suc j \<le> k"
    proof (cases "k = j")
      case True
      then show ?thesis using loop_head_nth_same [OF j, of items] by simp
    next
      case False
      then show ?thesis using loop_head_nth [of k j items ?s] IH(3) \<open>k < c\<close> by auto
    qed
  qed
  have d: "potential items (loop_head items j ?s) = length items"
    using loop_head_potential [OF j, of items] ns IH by simp
  show ?case unfolding step using a b c d by blast
qed

lemma start_eq: "start items c = fold (loop_head items) [0..<c] (init_pool c)"
  by (simp add: start_def)

lemma start_props:
  "pool_inv items fn (start items c)"
  "length (workers (start items c)) = c"
  "NotStarted \<notin> set (workers (start items c))"
  "potential items (start items c) = length items"
proof -
  note sp = start_prefix [of c c items fn, simplified, folded start_eq]
  show "pool_inv items fn (start items c)" "length (workers (start items c)) = c"
    "potential items (start items c) = length items"
    using sp by simp_all
  show "NotStarted \<notin> set (workers (start items c))"
    using sp by (auto simp add: in_set_conv_nth)
qed

lemma awaiting_member:
  "k \<in> set (awaiting s) \<longleftrightarrow> k < length (workers s) \<and> is_awaiting (workers s ! k)"
  by (auto simp add: awaiting_def)

lemma is_awaiting_pending: "is_awaiting w \<Longrightarrow> pending (\<lambda>i. True) w = 1"
  by (cases w) auto

lemma event_idle: "awaiting s = [] \<Longrightarrow> event items fn pick s = s"
  by (simp add: event_def)

lemma event_busy:
  assumes "awaiting s \<noteq> []"
  obtains k i where "k < length (workers s)" "workers s ! k = Awaiting i"
    "event items fn pick s = resume items fn k s"
proof -
  obtain a as where ks: "awaiting s = a # as" using assms by (cases "awaiting s") auto
  define k where "k = (a # as) ! (pick mod length (a # as))"
  have "k \<in> set (awaiting s)" unfolding k_def ks by (rule nth_mem) simp
  then have k: "k < length (workers s)" "is_awaiting (workers s ! k)"
    by (simp_all add: awaiting_member)
  then obtain i where i: "workers s ! k = Awaiting i" by (cases "workers s ! k") auto
  have "event items fn pick s = resume items fn k s"
    by (simp add: event_def ks k_def)
  then show ?thesis using that k(1) i by blast
qed

lemma resume_as_loop_head:
  assumes "workers s ! k = Awaiting i"
  obtains t where "resume items fn k s = loop_head items k t" "workers t = workers s"
    "index t = index s"
proof -
  let ?t = "if fn (items ! i) then s\<lparr>completed := completed s + 1\<rparr>
            else s\<lparr>failed := failed s + 1\<rparr>"
  have "resume items fn k s = loop_head items k ?t" using assms by (simp add: resume_def)
  moreover have "workers ?t = workers s" "index ?t = index s" by simp_all
  ultimately show ?thesis using that by blast
qed

lemma resume_ok:
  assumes ok: "pool_ok items fn c s" and k: "k < length (workers s)"
    and w: "workers s ! k = Awaiting i"
  shows "pool_ok items fn c (resume items fn k s)"
    and "potential items (resume items fn k s) + 1 = potential items s"
proof -
  obtain t where t: "resume items fn k s = loop_head items k t" "workers t = workers s"
    "index t = index s"
    using resume_as_loop_head [OF w] by blast
  have kt: "k < length (workers t)" using k t by simp
  have "pool_inv items fn (resume items fn k s)"
    using resume_inv [OF _ k w] ok by (simp add: pool_ok_def)
  moreover have "length (workers (resume items fn k s)) = c"
    using ok t by (simp add: pool_ok_def loop_head_fields)
  moreover have "NotStarted \<notin> set (workers (resume items fn k s))"
    using ok t loop_head_NotStarted [of items k t] by (auto simp add: pool_ok_def)
  ultimately show "pool_ok items fn c (resume items fn k s)" by (simp add: pool_ok_def)
  have "potential items t = potential items s"
    using t by (simp add: potential_def pending_sum_def)
  then show "potential items (resume items fn k s) + 1 = potential items s"
    using loop_head_potential [OF kt, of items] t w by simp
qed

lemma event_ok:
  assumes "pool_ok items fn c s"
  shows "pool_ok items fn c (event items fn pick s)"
proof (cases "awaiting s = []")
  case True
  then show ?thesis using assms by (simp add: event_idle)
next
  case False
  then obtain k i where "k < length (workers s)" "workers s ! k = Awaiting i"
    "event items fn pick s = resume items fn k s"
    using event_busy by blast
  then show ?thesis using resume_ok(1) [OF assms] by simp
qed

lemma event_potential:
  assumes "pool_ok items fn c s" and "awaiting s \<noteq> []"
  shows "potential items (event items fn pick s) + 1 = potential items s"
proof -
  obtain k i where "k < length (workers s)" "workers s ! k = Awaiting i"
    "event items fn pick s = resume items fn k s"
    using event_busy [OF assms(2)] by blast
  then show ?thesis using resume_ok(2) [OF assms(1)] by simp
qed

lemma events_ok:
  "pool_ok items fn c s \<Longrightarrow> pool_ok items fn c (fold (event items fn) picks s)"
  by (induction picks arbitrary: s) (simp_all add: event_ok)

lemma events_idle: "awaiting s = [] \<Longrightarrow> fold (event items fn) picks s = s"
  by (induction picks) (simp_all add: event_idle)

lemma awaiting_empty:
  "(awaiting s = []) = (\<forall>w\<in>set (workers s). \<not> is_awaiting w)"
  by (auto simp add: awaiting_def filter_empty_conv all_set_conv_all_nth)

lemma pending_sum_awaiting:
  "pending_sum (\<lambda>i. True) s = 0 \<longleftrightarrow> awaiting s = []"
proof -
  have "(sum_list (map (pending (\<lambda>i. True)) ws) = 0) = (\<forall>w\<in>set ws. \<not> is_awaiting w)" for ws
  proof (induction ws)
    case Nil show ?case by simp
  next
    case (Cons w ws) then show ?case by (cases w) auto
  qed
  then show ?thesis by (simp add: pending_sum_def awaiting_empty)
qed

lemma events_settle:
  assumes "pool_ok items fn c s" and "potential items s \<le> length picks"
  shows "awaiting (fold (event items fn) picks s) = []"
  using assms
proof (induction picks arbitrary: s)
  case Nil
  then have "pending_sum (\<lambda>i. True) s = 0" by (simp add: potential_def)
  then show ?case by (simp add: pending_sum_awaiting)
next
  case (Cons p picks)
  show ?case
  proof (cases "awaiting s = []")
    case True
    have "fold (event items fn) (p # picks) s = s" by (rule events_idle [OF True])
    then show ?thesis using True by simp
  next
    case False
    have "potential items (event items fn p s) \<le> length picks"
      using event_potential [OF Cons.prems(1) False, of p] Cons.prems(2) by simp
    then show ?thesis using Cons.IH [OF event_ok [OF Cons.prems(1)]] by simp
  qed
qed

lemma settled_iff:
  assumes "NotStarted \<notin> set (workers s)"
  shows "list_all (\<lambda>w. w = Returned) (workers s) \<longleftrightarrow> awaiting s = []"
proof -
  have "(\<not> is_awaiting w) = (w = Returned)" if "w \<in> set (workers s)" for w
  proof -
    have "w \<noteq> NotStarted" using that assms by auto
    then show ?thesis by (cases w) auto
  qed
  then show ?thesis by (auto simp add: list_all_iff awaiting_empty)
qed

lemma settled_tally:
  assumes ok: "pool_ok items fn c s" and c: "1 \<le> c"
    and fin: "list_all (\<lambda>w. w = Returned) (workers s)"
  shows "completed s = length (filter fn items)"
    and "failed s = length (filter (\<lambda>x. \<not> fn x) items)"
    and "calls s = items"
proof -
  have "workers s \<noteq> []" using ok c by (auto simp add: pool_ok_def)
  then have "Returned \<in> set (workers s)"
    using fin by (cases "workers s") (auto simp add: list_all_iff)
  then have ix: "index s = length items" using ok by (simp add: pool_ok_def pool_inv_def)
  have "pending P w = 0" if "w \<in> set (workers s)" for P w
    using that fin by (auto simp add: list_all_iff)
  then have z: "pending_sum P s = 0" for P by (simp add: pending_sum_def)
  show "completed s = length (filter fn items)"
    "failed s = length (filter (\<lambda>x. \<not> fn x) items)" "calls s = items"
    using ok ix z by (simp_all add: pool_ok_def pool_inv_def)
qed

lemma start_ok: "pool_ok items fn c (start items c)"
  by (simp add: pool_ok_def start_props)

lemma filter_split_length:
  "length (filter P xs) + length (filter (\<lambda>x. \<not> P x) xs) = length xs"
  by (induction xs) auto

lemma parallelMap_correct:
  assumes "1 \<le> concurrency"
  shows "(length items \<le> length picks \<longrightarrow>
            parallelMap items fn concurrency picks
              = Some (length (filter fn items), length (filter (\<lambda>x. \<not> fn x) items)))
       \<and> (\<forall>a b. parallelMap items fn concurrency picks = Some (a, b) \<longrightarrow>
            a = length (filter fn items) \<and> b = length (filter (\<lambda>x. \<not> fn x) items)
            \<and> a + b = length items
            \<and> calls (run_pool items fn concurrency picks) = items)"
proof -
  let ?s = "run_pool items fn concurrency picks"
  have ok: "pool_ok items fn concurrency ?s"
    unfolding run_pool_def by (rule events_ok [OF start_ok])
  have tally: "completed ?s = length (filter fn items)
      \<and> failed ?s = length (filter (\<lambda>x. \<not> fn x) items) \<and> calls ?s = items"
    if "list_all (\<lambda>w. w = Returned) (workers ?s)"
    using settled_tally [OF ok assms that] by simp
  have "list_all (\<lambda>w. w = Returned) (workers ?s)" if "length items \<le> length picks"
  proof -
    have "awaiting ?s = []"
      unfolding run_pool_def
      by (rule events_settle [OF start_ok]) (simp add: start_props that)
    moreover have "NotStarted \<notin> set (workers ?s)" using ok by (simp add: pool_ok_def)
    ultimately show ?thesis using settled_iff [of ?s] by simp
  qed
  then show ?thesis
    using tally filter_split_length [of fn items]
    by (auto simp add: parallelMap_def Let_def split: if_splits)
qed

lemma parallelMap_returns:
  fixes items :: "'a list" and fn :: "'a \<Rightarrow> bool" and c :: nat and picks :: "nat list"
  assumes "1 \<le> c" "length items \<le> length picks"
  shows "parallelMap items fn c picks
        = Some (length (filter fn items), length (filter (\<lambda>x. \<not> fn x) items))"
  using parallelMap_correct [OF assms(1)] assms(2) by blast

lemma parallelMap_result:
  fixes items :: "'a list" and fn :: "'a \<Rightarrow> bool" and c a b :: nat and picks :: "nat list"
  assumes h: "1 \<le> c" "parallelMap items fn c picks = Some (a, b)"
  shows "a = length (filter fn items) \<and> b = length (filter (\<lambda>x. \<not> fn x) items)
    \<and> a + b = length items \<and> calls (run_pool items fn c picks) = items"
  using parallelMap_correct [OF h(1)] h(2) by blast

lemma scenario_succeeded:
  "length (filter (\<lambda>x::nat. x \<noteq> 4 \<and> x \<noteq> 7) [1..<11]) = 8"
  by code_simp

lemma scenario_failed:
  "length (filter (\<lambda>x. \<not> (x \<noteq> 4 \<and> x \<noteq> 7)) [1..<11::nat]) = 2"
  by code_simp

lemma scenario_tally:
  assumes h: "10 \<le> length picks"
  shows "parallelMap [1..<11] (\<lambda>x. x \<noteq> 4 \<and> x \<noteq> 7) 3 picks = Some (8, 2)
        \<and> calls (run_pool [1..<11] (\<lambda>x. x \<noteq> 4 \<and> x \<noteq> 7) 3 picks) = [1..<11]"
proof -
  let ?fn = "\<lambda>x::nat. x \<noteq> 4 \<and> x \<noteq> 7"
  have c: "(1::nat) \<le> 3" by simp
  have n: "length [1..<11::nat] \<le> length picks" using h by simp
  have "parallelMap [1..<11] ?fn 3 picks
         = Some (length (filter ?fn [1..<11]), length (filter (\<lambda>x. \<not> ?fn x) [1..<11]))"
    by (rule parallelMap_returns [OF c n])
  then have r: "parallelMap [1..<11] ?fn 3 picks = Some (8, 2)"
    by (simp only: scenario_succeeded scenario_failed)
  then show ?thesis using parallelMap_result [OF c r] by blast
qed

text \<open>
  C7. With a pool of at least one worker, whatever the order in which the uploads end:
  once the event loop has taken as many turns as there are items, \<^verbatim>\<open>parallelMap\<close> has
  returned, and whenever it has returned, \<open>completed\<close> is the number of items whose upload
  succeeded, \<open>failed\<close> the number of those whose upload failed, the two add up to the
  number of items, and \<^verbatim>\<open>fn\<close> was invoked on every item exactly once (the invocations are
  the item list itself), the items after a failed one included. For ten items, a pool of
  three and failing items 4 and 7 the tally is 8 and 2.
\<close>

theorem parallelMap_tally:
  "(\<forall>items fn c picks. 1 \<le> c \<longrightarrow> length items \<le> length picks \<longrightarrow>
      parallelMap items fn c picks
        = Some (length (filter fn items), length (filter (\<lambda>x. \<not> fn x) items)))
   \<and> (\<forall>items fn c picks a b. 1 \<le> c \<longrightarrow> parallelMap items fn c picks = Some (a, b) \<longrightarrow>
        a = length (filter fn items) \<and> b = length (filter (\<lambda>x. \<not> fn x) items)
        \<and> a + b = length items
        \<and> calls (run_pool items fn c picks) = items)
   \<and> (\<forall>picks. 10 \<le> length picks \<longrightarrow>
        parallelMap [1..<11] (\<lambda>x. x \<noteq> 4 \<and> x \<noteq> 7) 3 picks = Some (8, 2)
        \<and> calls (run_pool [1..<11] (\<lambda>x. x \<noteq> 4 \<and> x \<noteq> 7) 3 picks) = [1..<11])"
  using parallelMap_returns parallelMap_result scenario_tally by blast

theorem parallelMap_tally_witness:
  "(1::nat) \<le> 3 \<and> 10 \<le> length [0, 1, 2, 0, 1, 2, 0, 1, 0, 0 :: nat]
   \<and> parallelMap [1..<11] (\<lambda>x. x \<noteq> 4 \<and> x \<noteq> 7) 3 [0, 1, 2, 0, 1, 2, 0, 1, 0, 0]
       = Some (8, 2)"
proof -
  have h: "10 \<le> length [0, 1, 2, 0, 1, 2, 0, 1, 0, 0 :: nat]" by simp
  note t = parallelMap_tally [THEN conjunct2, THEN conjunct2, THEN spec, THEN mp, OF h]
  have c: "(1::nat) \<le> 3" by simp
  show ?thesis using h t c by blast
qed

subsection \<open>The phases of the publisher\<close>

lemma main_upload_needs_flag:
  assumes "args \<noteq> []" and "''--manifest'' \<notin> set args" and "''--svgs'' \<notin> set args"
  shows "main_upload args env = (if manifest_exists env then Inr [] else Inl 1)"
  using assms by (simp add: main_upload_def uploadManifest_def uploadSvgs_def)

text \<open>
  C10. Called with \<^verbatim>\<open>--lib <name>\<close> alone, where the name is neither \<^verbatim>\<open>--svgs\<close> nor
  \<^verbatim>\<open>--manifest\<close>, the script enables neither phase and attempts no upload (it ends with
  code 1 when the manifest is missing, and with nothing uploaded otherwise); a phase is
  enabled exactly when there is no argument or its own flag is one of the arguments.
\<close>

theorem lib_flag_alone_uploads_nothing:
  "(\<forall>name env. name \<noteq> ''--svgs'' \<longrightarrow> name \<noteq> ''--manifest'' \<longrightarrow>
      \<not> uploadManifest [''--lib'', name] \<and> \<not> uploadSvgs [''--lib'', name]
      \<and> main_upload [''--lib'', name] env = (if manifest_exists env then Inr [] else Inl 1))
   \<and> (\<forall>args. uploadManifest args = (args = [] \<or> ''--manifest'' \<in> set args))
   \<and> (\<forall>args. uploadSvgs args = (args = [] \<or> ''--svgs'' \<in> set args))"
proof (intro conjI allI impI)
  fix name :: string and env :: upload_env
  assume h: "name \<noteq> ''--svgs''" "name \<noteq> ''--manifest''"
  show "\<not> uploadManifest [''--lib'', name]" using h by (simp add: uploadManifest_def)
  show "\<not> uploadSvgs [''--lib'', name]" using h by (simp add: uploadSvgs_def)
  show "main_upload [''--lib'', name] env = (if manifest_exists env then Inr [] else Inl 1)"
    using h by (intro main_upload_needs_flag) simp_all
next
  fix args :: "string list"
  show "uploadManifest args = (args = [] \<or> ''--manifest'' \<in> set args)"
    by (simp add: uploadManifest_def)
  show "uploadSvgs args = (args = [] \<or> ''--svgs'' \<in> set args)"
    by (simp add: uploadSvgs_def)
qed

theorem lib_flag_alone_uploads_nothing_witness:
  "''tabler'' \<noteq> ''--svgs'' \<and> ''tabler'' \<noteq> ''--manifest''
   \<and> main_upload [''--lib'', ''tabler'']
        \<lparr>manifest_exists = True,
         build_dir = [(''tabler'', Folder [(''outline'', Folder [(''a.svg'', File)])])],
         r2_ok = (\<lambda>f. True), finish_order = (\<lambda>turn. 0)\<rparr> = Inr []"
proof -
  have h: "''tabler'' \<noteq> ''--svgs''" "''tabler'' \<noteq> ''--manifest''" by simp_all
  show ?thesis using h lib_flag_alone_uploads_nothing by simp
qed

section \<open>Properties of the suffix strips\<close>

lemma endsWith_append: "endsWith (name @ suf) suf"
  by (simp add: endsWith_def suffix_def)

lemma replace_at_end_append: "replace_at_end suf (name @ suf) = name"
  by (simp add: replace_at_end_def endsWith_append)

lemma replace_at_end_id: "\<not> endsWith s suf \<Longrightarrow> replace_at_end suf s = s"
  by (simp add: replace_at_end_def)

lemma endsWith_last:
  assumes "endsWith s suf" and "suf \<noteq> []"
  shows "s \<noteq> [] \<and> last s = last suf"
  using assms by (auto simp add: endsWith_def suffix_def)


lemma remove_first_absent: "\<not> str_includes s pat \<Longrightarrow> remove_first pat s = s"
  by (induction s) auto

lemma no_straddle:
  assumes "pat \<noteq> []" and "hd pat \<notin> set (tl pat)" and "s \<noteq> []"
    and "\<not> prefix pat s"
  shows "\<not> prefix pat (s @ pat)"
proof
  assume p: "prefix pat (s @ pat)"
  show False
  proof (cases "length pat \<le> length s")
    case True
    then have "prefix pat s" using p by (metis prefix_length_prefix prefixI)
    then show False using assms(4) by simp
  next
    case False
    then have ls: "length s < length pat" by simp
    have sn: "s \<noteq> []" by (rule assms(3))
    from p obtain r where r: "s @ pat = pat @ r" by (auto simp add: prefix_def)
    have "(s @ pat) ! length s = pat ! length s" using r ls by (simp add: nth_append)
    then have "hd pat = pat ! length s" using assms(1) by (simp add: nth_append hd_conv_nth)
    moreover have "pat ! length s \<in> set (tl pat)"
    proof -
      obtain n where n: "length s = Suc n" using sn by (cases s) auto
      have "pat ! Suc n = tl pat ! n" using assms(1) by (cases pat) auto
      moreover have "n < length (tl pat)" using ls n by simp
      ultimately show ?thesis using n by (metis nth_mem)
    qed
    ultimately show False using assms(2) by simp
  qed
qed

lemma remove_first_append:
  assumes "pat \<noteq> []" and "hd pat \<notin> set (tl pat)" and "\<not> str_includes name pat"
  shows "remove_first pat (name @ pat) = name"
  using assms(3)
proof (induction name)
  case Nil
  then show ?case using assms(1) by (cases pat) auto
next
  case (Cons c cs)
  then have np: "\<not> prefix pat (c # cs)" and nc: "\<not> str_includes cs pat" by auto
  have "\<not> prefix pat ((c # cs) @ pat)" by (rule no_straddle [OF assms(1,2) _ np]) simp
  then show ?case using Cons.IH [OF nc] by simp
qed

lemma endsWith_simps:
  "\<not> endsWith (name @ ''-line'') ''-fill''"
  "\<not> endsWith (name @ ''-sharp'') ''-outline''"
  using endsWith_last [of "name @ ''-line''" "''-fill''"]
    endsWith_last [of "name @ ''-sharp''" "''-outline''"]
  by auto

lemma remix_split_append:
  "snd (remix_split (name @ ''-fill'')) = name" "snd (remix_split (name @ ''-line'')) = name"
  by (simp_all add: remix_split_def endsWith_append replace_at_end_append endsWith_simps)

lemma ionicons_split_append:
  "snd (ionicons_split (name @ ''-outline'')) = name"
  "snd (ionicons_split (name @ ''-sharp'')) = name"
  by (simp_all add: ionicons_split_def endsWith_append replace_at_end_append endsWith_simps)

lemma mdi_split_append: "snd (mdi_split (name @ ''-outline'')) = name"
  by (simp add: mdi_split_def endsWith_append replace_at_end_append)

lemma phosphor_strip_append:
  "\<not> str_includes name ''-bold'' \<Longrightarrow> phosphor_strip ''-bold'' (name @ ''-bold'') = name"
  "\<not> str_includes name ''-fill'' \<Longrightarrow> phosphor_strip ''-fill'' (name @ ''-fill'') = name"
  unfolding phosphor_strip_def by (rule remove_first_append; simp)+

text \<open>
  C4 (as amended). For every base name: appending \<^verbatim>\<open>-fill\<close>, \<^verbatim>\<open>-line\<close>, \<^verbatim>\<open>-outline\<close> or
  \<^verbatim>\<open>-sharp\<close> and applying the strip step of the adapter that handles the suffix
  (Bootstrap and Remix \<^verbatim>\<open>-fill\<close>, Remix \<^verbatim>\<open>-line\<close>, MDI and Ionicons \<^verbatim>\<open>-outline\<close>,
  Ionicons \<^verbatim>\<open>-sharp\<close>) gives the name back; so does Phosphor's step for \<^verbatim>\<open>-bold\<close> and
  \<^verbatim>\<open>-fill\<close> on a name that does not contain the suffix. Applying the step a second time
  changes nothing when the base name does not itself end with a suffix of that adapter
  (for Phosphor: does not contain the suffix).
\<close>

theorem strip_suffix_roundtrip:
  "bootstrap_baseName (name @ ''-fill'') = name
   \<and> snd (remix_split (name @ ''-fill'')) = name
   \<and> snd (remix_split (name @ ''-line'')) = name
   \<and> snd (mdi_split (name @ ''-outline'')) = name
   \<and> snd (ionicons_split (name @ ''-outline'')) = name
   \<and> snd (ionicons_split (name @ ''-sharp'')) = name
   \<and> (\<not> str_includes name ''-bold'' \<longrightarrow>
        phosphor_strip ''-bold'' (name @ ''-bold'') = name
        \<and> phosphor_strip ''-bold'' (phosphor_strip ''-bold'' (name @ ''-bold''))
            = phosphor_strip ''-bold'' (name @ ''-bold''))
   \<and> (\<not> str_includes name ''-fill'' \<longrightarrow>
        phosphor_strip ''-fill'' (name @ ''-fill'') = name
        \<and> phosphor_strip ''-fill'' (phosphor_strip ''-fill'' (name @ ''-fill''))
            = phosphor_strip ''-fill'' (name @ ''-fill''))
   \<and> (\<not> endsWith name ''-fill'' \<longrightarrow>
        bootstrap_baseName (bootstrap_baseName (name @ ''-fill''))
          = bootstrap_baseName (name @ ''-fill''))
   \<and> (\<not> endsWith name ''-fill'' \<and> \<not> endsWith name ''-line'' \<longrightarrow>
        snd (remix_split (snd (remix_split (name @ ''-fill''))))
          = snd (remix_split (name @ ''-fill''))
        \<and> snd (remix_split (snd (remix_split (name @ ''-line''))))
          = snd (remix_split (name @ ''-line'')))
   \<and> (\<not> endsWith name ''-outline'' \<longrightarrow>
        snd (mdi_split (snd (mdi_split (name @ ''-outline''))))
          = snd (mdi_split (name @ ''-outline'')))
   \<and> (\<not> endsWith name ''-outline'' \<and> \<not> endsWith name ''-sharp'' \<longrightarrow>
        snd (ionicons_split (snd (ionicons_split (name @ ''-outline''))))
          = snd (ionicons_split (name @ ''-outline''))
        \<and> snd (ionicons_split (snd (ionicons_split (name @ ''-sharp''))))
          = snd (ionicons_split (name @ ''-sharp'')))"
proof -
  have b: "bootstrap_baseName (name @ ''-fill'') = name"
    by (simp add: bootstrap_baseName_def replace_at_end_append)
  have p1: "phosphor_strip ''-bold'' name = name" if "\<not> str_includes name ''-bold''"
    using that by (simp add: phosphor_strip_def remove_first_absent)
  have p2: "phosphor_strip ''-fill'' name = name" if "\<not> str_includes name ''-fill''"
    using that by (simp add: phosphor_strip_def remove_first_absent)
  have b2: "bootstrap_baseName name = name" if "\<not> endsWith name ''-fill''"
    using that by (simp add: bootstrap_baseName_def replace_at_end_id)
  have r2: "snd (remix_split name) = name"
    if "\<not> endsWith name ''-fill'' \<and> \<not> endsWith name ''-line''"
    using that by (simp add: remix_split_def)
  have m2: "snd (mdi_split name) = name" if "\<not> endsWith name ''-outline''"
    using that by (simp add: mdi_split_def)
  have i2: "snd (ionicons_split name) = name"
    if "\<not> endsWith name ''-outline'' \<and> \<not> endsWith name ''-sharp''"
    using that by (simp add: ionicons_split_def)
  show ?thesis
    using b p1 p2 b2 r2 m2 i2
    by (simp add: remix_split_append ionicons_split_append mdi_split_append
        phosphor_strip_append)
qed

theorem strip_suffix_roundtrip_witness:
  "\<not> str_includes ''acorn'' ''-bold'' \<and> \<not> str_includes ''acorn'' ''-fill''
   \<and> \<not> endsWith ''acorn'' ''-fill'' \<and> \<not> endsWith ''acorn'' ''-line''
   \<and> \<not> endsWith ''acorn'' ''-outline'' \<and> \<not> endsWith ''acorn'' ''-sharp''
   \<and> phosphor_strip ''-bold'' (''acorn'' @ ''-bold'') = ''acorn''
   \<and> phosphor_strip ''-fill'' (phosphor_strip ''-fill'' (''acorn'' @ ''-fill''))
       = phosphor_strip ''-fill'' (''acorn'' @ ''-fill'')
   \<and> bootstrap_baseName (bootstrap_baseName (''acorn'' @ ''-fill''))
       = bootstrap_baseName (''acorn'' @ ''-fill'')
   \<and> snd (remix_split (snd (remix_split (''acorn'' @ ''-line''))))
       = snd (remix_split (''acorn'' @ ''-line''))
   \<and> snd (mdi_split (snd (mdi_split (''acorn'' @ ''-outline''))))
       = snd (mdi_split (''acorn'' @ ''-outline''))
   \<and> snd (ionicons_split (snd (ionicons_split (''acorn'' @ ''-sharp''))))
       = snd (ionicons_split (''acorn'' @ ''-sharp''))"
proof -
  have h: "\<not> str_includes ''acorn'' ''-bold''" "\<not> str_includes ''acorn'' ''-fill''"
    "\<not> endsWith ''acorn'' ''-fill''" "\<not> endsWith ''acorn'' ''-line''"
    "\<not> endsWith ''acorn'' ''-outline''" "\<not> endsWith ''acorn'' ''-sharp''"
    by (simp_all add: endsWith_def suffix_Cons)
  show ?thesis using h strip_suffix_roundtrip [of "''acorn''"] by blast
qed

text \<open>
  The claim as stated fails: a strip step removes one trailing suffix, so on a base name
  that ends with the suffix the second application removes another one.
\<close>

theorem strip_twice_differs:
  "bootstrap_baseName (bootstrap_baseName (''a-fill'' @ ''-fill''))
     \<noteq> bootstrap_baseName (''a-fill'' @ ''-fill'')"
  by (simp add: bootstrap_baseName_def replace_at_end_def endsWith_def suffix_Cons)

text \<open>
  Phosphor's step removes the first occurrence of the suffix, wherever it stands.
\<close>

lemma phosphor_strip_first_occurrence:
  "phosphor_strip ''-bold'' (''text-bolder'' @ ''-bold'') = ''texter-bold''"
  by (simp add: phosphor_strip_def)

section \<open>Properties of the adapters and the manifest builder\<close>

subsection \<open>Every icon record is well formed\<close>

lemma category_ids_eval:
  "category_ids = [''arrows'', ''navigation'', ''datetime'', ''files'', ''communication'',
     ''media'', ''people'', ''commerce'', ''security'', ''controls'', ''infrastructure'',
     ''actions'', ''notifications'', ''location'', ''visual'', ''development'', ''weather'',
     ''shapes'', ''text'', ''misc'']"
  by (simp add: category_ids_def CATEGORIES_def)

lemma overrides_in_categories: "\<forall>(k, v) \<in> set NAME_OVERRIDES. v \<in> set category_ids"
  unfolding category_ids_eval by (simp add: NAME_OVERRIDES_def)

lemma keyword_categories: "\<forall>(c, ks) \<in> set CATEGORY_KEYWORDS. c \<in> set category_ids"
  unfolding category_ids_eval by (simp add: CATEGORY_KEYWORDS_def)

lemma tabler_map_values: "\<forall>(k, v) \<in> set TABLER_CATEGORY_MAP. v \<in> set category_ids"
  unfolding category_ids_eval by (simp add: TABLER_CATEGORY_MAP_def)

lemma phosphor_map_values: "\<forall>(k, v) \<in> set PHOSPHOR_CATEGORY_MAP. v \<in> set category_ids"
  unfolding category_ids_eval by (simp add: PHOSPHOR_CATEGORY_MAP_def)

lemma remix_map_values: "\<forall>(k, v) \<in> set REMIX_CATEGORY_MAP. v \<in> set category_ids"
  unfolding category_ids_eval by (simp add: REMIX_CATEGORY_MAP_def)

lemma mdi_map_values: "\<forall>(k, v) \<in> set MDI_CATEGORY_MAP. v \<in> set category_ids"
  unfolding category_ids_eval by (simp add: MDI_CATEGORY_MAP_def)

lemma iconpark_map_values: "\<forall>(k, v) \<in> set ICONPARK_CATEGORY_MAP. v \<in> set category_ids"
  unfolding category_ids_eval by (simp add: ICONPARK_CATEGORY_MAP_def)

lemma get_prop_cases:
  "get_prop obj k = None \<or> (\<exists>v. (k, v) \<in> set obj \<and> get_prop obj k = Some (Val v))
   \<or> get_prop obj k = Some (Inherited k)"
  by (auto simp add: get_prop_def dest: map_of_SomeD split: option.splits)

lemma get_prop_wf:
  assumes "\<forall>(k, v) \<in> set m. v \<in> set category_ids" and "get_prop m k = Some c"
  shows "cat_wf c"
  using get_prop_cases [of m k] assms by auto

lemma get_or_wf:
  assumes "\<forall>(k, v) \<in> set m. v \<in> set category_ids" and "cat_wf fallback"
  shows "cat_wf (get_or m k fallback)"
proof (cases "get_prop m k")
  case None
  then show ?thesis using assms(2) by (simp add: get_or_def)
next
  case (Some c)
  then show ?thesis using get_prop_wf [OF assms(1) Some] assms(2) by (simp add: get_or_def)
qed

lemma first_mapped_wf:
  assumes "\<forall>(k, v) \<in> set m. v \<in> set category_ids" and "first_mapped m cs = Some c"
  shows "cat_wf c"
  using assms(2)
proof (induction cs)
  case Nil
  then show ?case by simp
next
  case (Cons a cs)
  then show ?case using get_prop_wf [OF assms(1)] by (auto split: if_splits)
qed

lemma first_category_wf:
  "first_category test table = Some c \<Longrightarrow> c \<in> fst ` set table"
  by (induction table) (auto split: if_splits)

lemma misc_is_category: "''misc'' \<in> set category_ids"
  unfolding category_ids_eval by simp

lemma keyword_scan_category: "keyword_scan name tgs \<in> set category_ids"
proof -
  have kw: "c \<in> set category_ids" if "first_category test CATEGORY_KEYWORDS = Some c"
    for test c
    using first_category_wf [OF that] keyword_categories by auto
  show ?thesis
    using kw misc_is_category by (auto simp add: keyword_scan_def split: option.splits)
qed

lemma categorize_wf: "cat_wf (categorizeByKeywords name tgs)"
proof (cases "get_prop NAME_OVERRIDES name")
  case None
  then show ?thesis by (simp add: categorizeByKeywords_def keyword_scan_category)
next
  case (Some c)
  then show ?thesis
    using get_prop_wf [OF overrides_in_categories Some]
    by (simp add: categorizeByKeywords_def keyword_scan_category)
qed

text \<open>
  Away from the member names of \<^verbatim>\<open>Object.prototype\<close> the categorizer is total: it
  returns one of the twenty category ids.
\<close>

lemma categorize_own_names:
  assumes "name \<notin> set OBJECT_PROTOTYPE_KEYS"
  shows "\<exists>c\<in>set category_ids. categorizeByKeywords name tgs = Val c"
proof -
  have "get_prop NAME_OVERRIDES name \<noteq> Some (Inherited k)" for k
    using assms by (auto simp add: get_prop_def split: option.splits)
  then have "categorizeByKeywords name tgs \<noteq> Inherited k" for k
    by (auto simp add: categorizeByKeywords_def split: option.splits if_splits)
  then show ?thesis
    using categorize_wf [of name tgs] by (cases "categorizeByKeywords name tgs") auto
qed

lemma cat_wf_misc: "cat_wf (Val ''misc'')"
  using misc_is_category by simp

lemma library_ids_eval:
  "library_ids = [''lucide'', ''tabler'', ''heroicons'', ''phosphor'', ''bootstrap'',
     ''iconoir'', ''remix'', ''fluent'', ''mdi'', ''ionicons'', ''iconpark'']"
  by (simp add: library_ids_def LIBRARIES_def)

lemma keyword_icon_wf:
  assumes "lib \<in> set library_ids" and "ty \<in> set ICON_TYPES"
  shows "icon_wf (keyword_icon lib dir ty file)"
  using assms by (simp add: icon_wf_def keyword_icon_def Let_def categorize_wf)

lemma lucide_icon_wf: "icon_wf (lucide_icon tagsData file)"
  by (simp add: icon_wf_def lucide_icon_def Let_def categorize_wf library_ids_eval
      ICON_TYPES_def)

lemma tabler_icon_wf:
  assumes "ty \<in> set ICON_TYPES"
  shows "icon_wf (tabler_icon lookup tablerMeta ty file)"
  using assms get_or_wf [OF tabler_map_values categorize_wf]
  by (simp add: icon_wf_def tabler_icon_def Let_def library_ids_eval)

lemma phosphor_icon_wf:
  assumes "style \<in> set PHOSPHOR_STYLES"
  shows "icon_wf (phosphor_icon metaLookup style file)"
proof -
  obtain dir ty suf where st: "style = (dir, ty, suf)" by (cases style) auto
  have ty: "ty \<in> set ICON_TYPES"
    using assms st by (auto simp add: PHOSPHOR_STYLES_def ICON_TYPES_def)
  have fm: "cat_wf (case first_mapped PHOSPHOR_CATEGORY_MAP cats of
                      Some c \<Rightarrow> c | None \<Rightarrow> Val ''misc'')" for cats
    using first_mapped_wf [OF phosphor_map_values] cat_wf_misc
    by (cases "first_mapped PHOSPHOR_CATEGORY_MAP cats") auto
  show ?thesis
    using ty fm
    by (simp add: icon_wf_def phosphor_icon_def st Let_def categorize_wf library_ids_eval)
qed

lemma bootstrap_filled_icon_wf: "icon_wf (bootstrap_filled_icon file)"
  by (simp add: icon_wf_def bootstrap_filled_icon_def Let_def categorize_wf
      library_ids_eval ICON_TYPES_def)

lemma remix_icon_wf:
  assumes "cat_wf c"
  shows "icon_wf (remix_icon c file)"
  using assms
  by (simp add: icon_wf_def remix_icon_def remix_split_def library_ids_eval ICON_TYPES_def)

lemma fluent_icon_wf:
  assumes "ty \<in> set ICON_TYPES"
  shows "icon_wf (fluent_icon ty suf file)"
  using assms by (simp add: icon_wf_def fluent_icon_def Let_def categorize_wf library_ids_eval)

lemma mdi_icon_wf:
  assumes "mdi_icon metaLookup file = Inr (Some i)"
  shows "icon_wf i"
proof -
  have fm: "cat_wf (case first_mapped MDI_CATEGORY_MAP ts of
                      Some c \<Rightarrow> c | None \<Rightarrow> Val ''misc'')" for ts
    using first_mapped_wf [OF mdi_map_values] cat_wf_misc
    by (cases "first_mapped MDI_CATEGORY_MAP ts") auto
  show ?thesis
    using assms fm first_mapped_wf [OF mdi_map_values]
    by (auto simp add: icon_wf_def mdi_icon_def mdi_split_def Let_def categorize_wf
        library_ids_eval ICON_TYPES_def split: option.splits js.splits if_splits)
qed

lemma ionicons_icon_wf: "icon_wf (ionicons_icon rawName)"
  by (simp add: icon_wf_def ionicons_icon_def ionicons_split_def categorize_wf
      library_ids_eval ICON_TYPES_def)

lemma iconpark_icons_wf:
  assumes "i \<in> set (iconpark_icons lib pascalLookup meta)"
  shows "icon_wf i"
  using assms get_or_wf [OF iconpark_map_values cat_wf_misc, of "ip_category meta"]
  by (auto simp add: icon_wf_def iconpark_icons_def Let_def ICONPARK_THEMES_def
      library_ids_eval ICON_TYPES_def
      split: option.splits js.splits export.splits if_splits)

lemma collect_icons_wf:
  assumes "collect_icons rs = Inr ics" and "\<And>i. Inr (Some i) \<in> set rs \<Longrightarrow> icon_wf i"
  shows "\<forall>i\<in>set ics. icon_wf i"
  using assms
proof (induction rs arbitrary: ics)
  case Nil
  then show ?case by simp
next
  case (Cons r rs)
  then show ?case
    by (auto split: sum.splits option.splits)
qed

lemma processLucide_wf: "processLucide src = Inr ics \<Longrightarrow> \<forall>i\<in>set ics. icon_wf i"
  by (auto simp add: processLucide_def lucide_icon_wf split: option.splits)

lemma processTabler_wf: "processTabler src = Inr ics \<Longrightarrow> \<forall>i\<in>set ics. icon_wf i"
  by (auto simp add: processTabler_def Let_def tabler_icon_wf ICON_TYPES_def
      split: option.splits)

lemma processHeroicons_wf: "processHeroicons src = Inr ics \<Longrightarrow> \<forall>i\<in>set ics. icon_wf i"
  by (auto simp add: processHeroicons_def keyword_icon_wf ICON_TYPES_def library_ids_eval
      split: option.splits)

lemma processPhosphor_wf: "processPhosphor src = Inr ics \<Longrightarrow> \<forall>i\<in>set ics. icon_wf i"
  by (auto simp add: processPhosphor_def Let_def phosphor_icon_wf split: option.splits)

lemma processBootstrap_wf: "processBootstrap src = Inr ics \<Longrightarrow> \<forall>i\<in>set ics. icon_wf i"
  by (auto simp add: processBootstrap_def Let_def keyword_icon_wf bootstrap_filled_icon_wf
      ICON_TYPES_def library_ids_eval split: option.splits)

lemma processIconoir_wf: "processIconoir src = Inr ics \<Longrightarrow> \<forall>i\<in>set ics. icon_wf i"
  by (auto simp add: processIconoir_def keyword_icon_wf ICON_TYPES_def library_ids_eval
      split: option.splits)

lemma processRemixIcon_wf: "processRemixIcon src = Inr ics \<Longrightarrow> \<forall>i\<in>set ics. icon_wf i"
  using get_or_wf [OF remix_map_values cat_wf_misc]
  by (auto simp add: processRemixIcon_def remix_icon_wf split: option.splits)

lemma processFluent_wf: "processFluent src = Inr ics \<Longrightarrow> \<forall>i\<in>set ics. icon_wf i"
  by (auto simp add: processFluent_def Let_def fluent_icon_wf ICON_TYPES_def
      split: option.splits)

lemma processMdi_wf:
  assumes "processMdi src = Inr ics"
  shows "\<forall>i\<in>set ics. icon_wf i"
proof -
  obtain entries meta where
    "collect_icons (map (mdi_icon (assigned (map (\<lambda>entry. (me_name entry, entry)) meta)))
        (sort (svg_files entries))) = Inr ics \<or> ics = []"
    using assms by (auto simp add: processMdi_def Let_def split: option.splits)
  then show ?thesis
    using collect_icons_wf mdi_icon_wf by (elim disjE) (fastforce, simp)
qed

lemma processIonicons_wf: "processIonicons src = Inr ics \<Longrightarrow> \<forall>i\<in>set ics. icon_wf i"
  by (auto simp add: processIonicons_def ionicons_icon_wf split: option.splits)

lemma processIconPark_wf: "processIconPark src = Inr ics \<Longrightarrow> \<forall>i\<in>set ics. icon_wf i"
  by (auto simp add: processIconPark_def Let_def iconpark_icons_wf split: option.splits)

lemma concat_results_wf:
  assumes "concat_results rs = Inr ics"
    and "\<forall>xs. Inr xs \<in> set rs \<longrightarrow> (\<forall>i\<in>set xs. icon_wf i)"
  shows "\<forall>i\<in>set ics. icon_wf i"
  using assms
proof (induction rs arbitrary: ics)
  case Nil
  then show ?case by simp
next
  case (Cons r rs)
  from Cons.prems(1) obtain xs ys where
    r: "r = Inr xs" and ys: "concat_results rs = Inr ys" and ics: "ics = xs @ ys"
    by (auto split: sum.splits)
  have "\<forall>i\<in>set xs. icon_wf i" using Cons.prems(2) r by simp
  moreover have "\<forall>i\<in>set ys. icon_wf i" using Cons.IH [OF ys] Cons.prems(2) by simp
  ultimately show ?case using ics by auto
qed

lemma allIcons_wf:
  assumes "allIcons src = Inr ics"
  shows "\<forall>i\<in>set ics. icon_wf i"
proof (rule concat_results_wf [OF assms [unfolded allIcons_def]], intro allI impI)
  fix xs
  assume "Inr xs \<in> set (map (\<lambda>adapter. adapter src) ADAPTERS)"
  then have "processLucide src = Inr xs \<or> processTabler src = Inr xs
      \<or> processHeroicons src = Inr xs \<or> processPhosphor src = Inr xs
      \<or> processBootstrap src = Inr xs \<or> processIconoir src = Inr xs
      \<or> processRemixIcon src = Inr xs \<or> processFluent src = Inr xs
      \<or> processMdi src = Inr xs \<or> processIonicons src = Inr xs
      \<or> processIconPark src = Inr xs"
    by (auto simp add: ADAPTERS_def)
  then show "\<forall>i\<in>set xs. icon_wf i"
    by (elim disjE)
      (erule processLucide_wf, erule processTabler_wf, erule processHeroicons_wf,
        erule processPhosphor_wf, erule processBootstrap_wf, erule processIconoir_wf,
        erule processRemixIcon_wf, erule processFluent_wf, erule processMdi_wf,
        erule processIonicons_wf, erule processIconPark_wf)
qed

subsection \<open>Counts\<close>

lemma bump_sum: "sum_list (map snd (bump stats key)) = Suc (sum_list (map snd stats))"
  by (induction stats key rule: bump.induct) auto

lemma foldl_bump_sum:
  "sum_list (map snd (foldl bump stats keys)) = sum_list (map snd stats) + length keys"
  by (induction keys arbitrary: stats) (simp_all add: bump_sum)

lemma count_keys_sum: "sum_list (map snd (count_keys keys)) = length keys"
  by (simp add: count_keys_def foldl_bump_sum)

lemma count_of_bump:
  "count_of (bump stats key) k = count_of stats k + (if k = key then 1 else 0)"
  by (induction stats key rule: bump.induct) (auto simp add: count_of_def)

lemma count_of_foldl_bump:
  "count_of (foldl bump stats keys) k = count_of stats k + count_list keys k"
  by (induction keys arbitrary: stats) (auto simp add: count_of_bump)

lemma count_of_count_keys: "count_of (count_keys keys) = count_list keys"
proof
  fix k
  have "count_of [] k = 0" by (simp add: count_of_def)
  then show "count_of (count_keys keys) k = count_list keys k"
    by (simp add: count_keys_def count_of_foldl_bump)
qed

lemma sum_counts_over_ids:
  assumes "distinct ids" and "set keys \<subseteq> set ids"
  shows "sum_list (map (count_of (count_keys keys)) ids) = length keys"
proof -
  have "sum_list (map (count_list keys) ids) = sum (count_list keys) (set ids)"
    using assms(1) by (simp add: sum_list_distinct_conv_sum_set)
  also have "\<dots> = length keys"
    using assms(2) by (simp add: sum_count_set)
  finally show ?thesis by (simp add: count_of_count_keys)
qed

lemma distinct_library_ids: "distinct library_ids"
  unfolding library_ids_eval by simp

lemma manifest_library_counts:
  assumes "\<forall>i\<in>set ics. icon_wf i"
  shows "sum_list (map lib_iconCount (libraries (build_manifest now ics))) = length ics"
proof -
  have "map lib_iconCount (libraries (build_manifest now ics))
        = map (count_of (libraryStats ics)) library_ids"
    by (simp add: build_manifest_def library_ids_def comp_def case_prod_beta)
  moreover have "set (map library ics) \<subseteq> set library_ids"
    using assms by (auto simp add: icon_wf_def)
  ultimately show ?thesis
    using sum_counts_over_ids [OF distinct_library_ids, of "map library ics"]
    by (simp add: libraryStats_def)
qed

lemma String_of_not_inherited_key: "String_of (Inherited k) \<notin> set OBJECT_PROTOTYPE_KEYS"
  by (auto simp add: OBJECT_PROTOTYPE_KEYS_def)

text \<open>
  The keys of the three counters are never names of \<^verbatim>\<open>Object.prototype\<close>, so
  \<^verbatim>\<open>stats[key] || 0\<close> reads a counter of the object's own or \<^verbatim>\<open>undefined\<close>.
\<close>

lemma stats_keys_own:
  assumes "icon_wf i"
  shows "String_of (category i) \<notin> set OBJECT_PROTOTYPE_KEYS
       \<and> library i \<notin> set OBJECT_PROTOTYPE_KEYS \<and> icon_type i \<notin> set OBJECT_PROTOTYPE_KEYS"
proof -
  have "set category_ids \<inter> set OBJECT_PROTOTYPE_KEYS = {}"
    unfolding category_ids_eval by (simp add: OBJECT_PROTOTYPE_KEYS_def)
  then have "String_of (category i) \<notin> set OBJECT_PROTOTYPE_KEYS"
    using assms String_of_not_inherited_key
    by (cases "category i") (auto simp add: icon_wf_def)
  moreover have "set library_ids \<inter> set OBJECT_PROTOTYPE_KEYS = {}"
    unfolding library_ids_eval by (simp add: OBJECT_PROTOTYPE_KEYS_def)
  moreover have "set ICON_TYPES \<inter> set OBJECT_PROTOTYPE_KEYS = {}"
    by (simp add: ICON_TYPES_def OBJECT_PROTOTYPE_KEYS_def)
  ultimately show ?thesis using assms by (auto simp add: icon_wf_def)
qed

text \<open>
  The counters of the stats loop each add up to the number of icons, whatever the icons
  are; the \<^verbatim>\<open>iconCount\<close> fields of the manifest's libraries do so for every icon set
  the adapters return.
\<close>

lemma stats_sum_to_total:
  "sum_list (map snd (categoryStats ics)) = length ics
   \<and> sum_list (map snd (libraryStats ics)) = length ics
   \<and> sum_list (map snd (typeStats ics)) = length ics"
  by (simp add: categoryStats_def libraryStats_def typeStats_def count_keys_sum)

lemma library_counts_sum_to_total:
  assumes "allIcons src = Inr ics"
  shows "sum_list (map lib_iconCount (libraries (build_manifest now ics))) = length ics"
  using manifest_library_counts allIcons_wf [OF assms] by blast

lemma sum_count_list_ids:
  assumes "distinct ids"
  shows "sum_list (map (count_list keys) ids) = length (filter (\<lambda>k. k \<in> set ids) keys)"
proof (induction keys)
  case Nil
  show ?case by simp
next
  case (Cons k keys)
  have one: "sum_list (map (\<lambda>i. if k = i then 1 else 0) ids) = (if k \<in> set ids then 1 else (0::nat))"
    using assms by (induction ids) auto
  have "count_list (k # keys) i = count_list keys i + (if k = i then 1 else 0)" for i
    by simp
  then have "sum_list (map (count_list (k # keys)) ids)
        = sum_list (map (\<lambda>i. count_list keys i + (if k = i then 1 else 0)) ids)"
    by presburger
  also have "\<dots> = sum_list (map (count_list keys) ids)
          + sum_list (map (\<lambda>i. if k = i then 1 else 0) ids)"
    by (rule sum_list_addf)
  finally have "sum_list (map (count_list (k # keys)) ids)
        = sum_list (map (count_list keys) ids)
          + sum_list (map (\<lambda>i. if k = i then 1 else 0) ids)" .
  also have "\<dots> = length (filter (\<lambda>k. k \<in> set ids) keys)
          + (if k \<in> set ids then 1 else 0)"
    by (simp only: Cons one)
  also have "\<dots> = length (filter (\<lambda>k. k \<in> set ids) (k # keys))" by simp
  finally show ?case .
qed

lemma String_of_category_id:
  assumes "cat_wf c"
  shows "String_of c \<in> set category_ids \<longleftrightarrow> (\<exists>s. c = Val s)"
proof (cases c)
  case (Val s)
  then show ?thesis using assms by simp
next
  case (Inherited k)
  have "String_of (Inherited k) \<notin> set category_ids"
    unfolding category_ids_eval by auto
  then show ?thesis using Inherited by simp
qed

text \<open>
  The \<^verbatim>\<open>count\<close> fields of the manifest's categories add up to the number of icons whose
  category is a string; an icon with an inherited member as its category is in none of
  them.
\<close>

lemma manifest_category_counts:
  assumes "\<forall>i\<in>set ics. icon_wf i"
  shows "sum_list (map cat_count (categories (build_manifest now ics)))
         = length (filter (\<lambda>i. \<exists>s. category i = Val s) ics)"
proof -
  have d: "distinct category_ids" unfolding category_ids_eval by simp
  have "map cat_count (categories (build_manifest now ics))
        = map (count_of (categoryStats ics)) category_ids"
    by (simp add: build_manifest_def category_ids_def comp_def case_prod_beta)
  then have "sum_list (map cat_count (categories (build_manifest now ics)))
        = length (filter (\<lambda>k. k \<in> set category_ids)
                   (map (\<lambda>i. String_of (category i)) ics))"
    using sum_count_list_ids [OF d] by (simp add: categoryStats_def count_of_count_keys)
  also have "\<dots> = length (filter (\<lambda>i. String_of (category i) \<in> set category_ids) ics)"
    by (simp add: filter_map comp_def)
  also have "\<dots> = length (filter (\<lambda>i. \<exists>s. category i = Val s) ics)"
    using assms String_of_category_id
    by (intro arg_cong [where f = length] filter_cong) (auto simp add: icon_wf_def)
  finally show ?thesis .
qed

text \<open>
  For the three synthetic icons of two libraries every count adds up to three, those of
  the manifest's categories included: their names are no members of \<^verbatim>\<open>Object.prototype\<close>.
\<close>

lemma synthetic_counts:
  "length synthetic_icons = 3 \<and> length (remdups (map library synthetic_icons)) = 2
   \<and> sum_list (map snd (categoryStats synthetic_icons)) = 3
   \<and> sum_list (map snd (libraryStats synthetic_icons)) = 3
   \<and> sum_list (map cat_count (categories (build_manifest now synthetic_icons))) = 3
   \<and> sum_list (map lib_iconCount (libraries (build_manifest now synthetic_icons))) = 3"
proof -
  have wf: "\<forall>i\<in>set synthetic_icons. icon_wf i"
    by (simp add: synthetic_icons_def keyword_icon_wf bootstrap_filled_icon_wf
        library_ids_eval ICON_TYPES_def)
  have n: "length synthetic_icons = 3" by (simp add: synthetic_icons_def)
  have l: "length (remdups (map library synthetic_icons)) = 2"
    by (simp add: synthetic_icons_def keyword_icon_def bootstrap_filled_icon_def Let_def)
  have own: "\<exists>s. categorizeByKeywords name (Some []) = Val s"
    if "name \<notin> set OBJECT_PROTOTYPE_KEYS" for name
    using categorize_own_names [OF that] by blast
  have "\<exists>s. category i = Val s" if "i \<in> set synthetic_icons" for i
  proof -
    have a: "\<exists>s. categorizeByKeywords ''arrow-up'' (Some []) = Val s"
      by (rule own) (simp add: OBJECT_PROTOTYPE_KEYS_def)
    have b: "\<exists>s. categorizeByKeywords ''bell'' (Some []) = Val s"
      by (rule own) (simp add: OBJECT_PROTOTYPE_KEYS_def)
    have c: "\<exists>s. categorizeByKeywords ''heart'' (Some []) = Val s"
      by (rule own) (simp add: OBJECT_PROTOTYPE_KEYS_def)
    have r1: "remove_first ''.svg'' ''arrow-up.svg'' = ''arrow-up''" by code_simp
    have r2: "remove_first ''.svg'' ''bell.svg'' = ''bell''" by code_simp
    have r3: "remove_first ''.svg'' ''heart-fill.svg'' = ''heart-fill''" by code_simp
    have r4: "bootstrap_baseName ''heart-fill'' = ''heart''" by code_simp
    show ?thesis
      using that a b c
      by (auto simp add: synthetic_icons_def keyword_icon_def bootstrap_filled_icon_def
          Let_def r1 r2 r3 r4 simp del: remove_first.simps)
  qed
  then have "filter (\<lambda>i. \<exists>s. category i = Val s) synthetic_icons = synthetic_icons"
    by (simp add: filter_id_conv)
  then have "sum_list (map cat_count (categories (build_manifest now synthetic_icons))) = 3"
    using manifest_category_counts [OF wf, of now] n by simp
  then show ?thesis
    using n l stats_sum_to_total [of synthetic_icons] manifest_library_counts [OF wf, of now]
    by simp
qed

subsection \<open>Missing libraries, reruns, and the invariant of the manifest\<close>







lemma allIcons_no_sources: "allIcons no_sources = Inr []"
  by (simp add: allIcons_def ADAPTERS_def no_sources_def processLucide_def
      processTabler_def processHeroicons_def processPhosphor_def processBootstrap_def
      processIconoir_def processRemixIcon_def processFluent_def processMdi_def
      processIonicons_def processIconPark_def)







text \<open>With the directory there, the same run completes with a manifest without icons.\<close>

lemma no_library_run_with_output_dir:
  "\<exists>out. main_pipeline True no_sources now = Inr out \<and> icons (manifest_json out) = []"
  by (simp add: main_pipeline_def allIcons_no_sources Let_def build_manifest_def)




lemma allIcons_constructor:
  "allIcons constructor_sources =
     Inr [\<lparr>icon_id = ''heroicons/outline/constructor'', icon_name = ''Constructor'',
           library = ''heroicons'', category = Inherited ''constructor'',
           icon_type = ''outline'', tags = Val []\<rparr>]"
  by code_simp

lemma constructor_creates_output_dir: "creates_output_dir constructor_sources"
  by (simp add: creates_output_dir_def constructor_sources_def no_sources_def)

text \<open>
  C2. The claim is that the category of every icon of the manifest is the id of one of
  the manifest's categories. With a single file \<^verbatim>\<open>constructor.svg\<close> in the Heroicons
  outline directory the run ends, whether \<^verbatim>\<open>build/icons\<close> was there or not, with a
  manifest whose only icon has the built-in \<^verbatim>\<open>Object\<close> function as its category.
\<close>

theorem manifest_invariant_broken:
  "\<forall>output_exists.
     \<exists>out. main_pipeline output_exists constructor_sources ''2026-01-01T00:00:00.000Z''
              = Inr out
       \<and> \<not> manifest_ok (manifest_json out)"
  by (auto simp add: main_pipeline_def allIcons_constructor constructor_creates_output_dir
      Let_def build_manifest_def manifest_ok_def)

text \<open>The other half of the invariant holds: the library of every icon is listed.\<close>

lemma manifest_libraries_listed:
  assumes "allIcons src = Inr ics"
  shows "list_all (\<lambda>i. library i \<in> set (map lib_id (libraries (build_manifest now ics)))) ics"
proof -
  have "map lib_id (libraries (build_manifest now ics)) = library_ids"
    by (simp add: build_manifest_def library_ids_def comp_def case_prod_beta)
  then show ?thesis
    using allIcons_wf [OF assms] by (simp add: list_all_iff icon_wf_def)
qed

text \<open>
  C9. The claim is that, for every icon set the adapters produce, the counts per
  category add up to the number of icons, as the counts per library do. The
  \<^verbatim>\<open>count\<close> fields of the manifest's categories are read from the counters for the
  twenty ids only: with the single file \<^verbatim>\<open>constructor.svg\<close> in the Heroicons outline
  directory the run ends with one icon, counted for its library, and with category counts
  that add up to zero.
\<close>

theorem category_counts_miss_icon:
  "\<forall>output_exists.
     \<exists>out. main_pipeline output_exists constructor_sources ''2026-01-01T00:00:00.000Z''
              = Inr out
       \<and> length (icons (manifest_json out)) = 1
       \<and> totalIcons (report_json out) = 1
       \<and> sum_list (map lib_iconCount (libraries (manifest_json out))) = 1
       \<and> sum_list (map cat_count (categories (manifest_json out))) = 0"
proof
  fix output_exists
  let ?ics = "[\<lparr>icon_id = ''heroicons/outline/constructor'', icon_name = ''Constructor'',
           library = ''heroicons'', category = Inherited ''constructor'',
           icon_type = ''outline'', tags = Val []\<rparr>]"
  let ?now = "''2026-01-01T00:00:00.000Z''"
  have wf: "\<forall>i\<in>set ?ics. icon_wf i"
    using allIcons_wf [OF allIcons_constructor] .
  have c: "sum_list (map cat_count (categories (build_manifest ?now ?ics))) = 0"
    using manifest_category_counts [OF wf, of ?now] by simp
  have l: "sum_list (map lib_iconCount (libraries (build_manifest ?now ?ics))) = 1"
    using manifest_library_counts [OF wf, of ?now] by simp
  have m: "main_pipeline output_exists constructor_sources ?now
           = Inr \<lparr>manifest_json = build_manifest ?now ?ics,
                   libraries_json = libraries (build_manifest ?now ?ics),
                   report_json = build_report ?ics\<rparr>"
    by (simp add: main_pipeline_def allIcons_constructor constructor_creates_output_dir
        Let_def)
  have i: "icons (build_manifest ?now ?ics) = ?ics" by (simp add: build_manifest_def)
  show "\<exists>out. main_pipeline output_exists constructor_sources ?now = Inr out
       \<and> length (icons (manifest_json out)) = 1
       \<and> totalIcons (report_json out) = 1
       \<and> sum_list (map lib_iconCount (libraries (manifest_json out))) = 1
       \<and> sum_list (map cat_count (categories (manifest_json out))) = 0"
    using m c l i by (simp add: build_report_def)
qed

section \<open>Properties of cleanSvg\<close>


























end
